theory Spec2Isabelle
  imports Complex_Main "HOL-Library.Sublist"
begin

section \<open>Numbers and strings of the two dashboards\<close>

text \<open>
  The two scripts compute on Python floats, which are real numbers: the values of a model
  function are of type \<^typ>\<open>real\<close>. Each call of \<open>random.uniform\<close> and of
  \<open>datetime.now\<close> is an extra argument of the function that makes it, so that a model
  function is the source function with its draws and clock readings made explicit.

  Where a result is rounded to some decimals or compared with a threshold after an
  operation, the rounding of the operation decides the result, and the model rounds as
  the float operation does: the product under \<open>round\<close>, \<open>round\<close> itself, and the
  difference that the status classifier compares with \<open>0.3\<close>. Elsewhere a decimal
  literal is the rational number it denotes and \<open>+\<close>, \<open>-\<close>, \<open>*\<close>, \<open>/\<close> are the exact
  operations, which the float operations follow up to their rounding error; \<open>abs\<close>,
  \<open>min\<close>, \<open>max\<close> and the comparisons are exact on floats.
\<close>

text \<open>
  \<open>str.lower\<close>, on the ASCII letters. The keys of the chemistry tables are ASCII, and
  no character outside \<open>A\<close>..\<open>Z\<close> is lowered to one of their letters.
\<close>

definition upper_lower_table :: "(char \<times> char) list" where
  "upper_lower_table = zip ''ABCDEFGHIJKLMNOPQRSTUVWXYZ'' ''abcdefghijklmnopqrstuvwxyz''"

definition lower_char :: "char \<Rightarrow> char" where
  "lower_char c = (case map_of upper_lower_table c of None \<Rightarrow> c | Some d \<Rightarrow> d)"

definition lower :: "string \<Rightarrow> string" where
  "lower s = map lower_char s"

subsection \<open>Floats\<close>

text \<open>The nearest integer and, of two nearest ones, the even one.\<close>

definition round_half_even :: "real \<Rightarrow> int" where
  "round_half_even x =
     (let f = \<lfloor>x\<rfloor>; d = x - of_int f
      in if d < 1 / 2 then f
         else if 1 / 2 < d then f + 1
         else if even f then f else f + 1)"

text \<open>The number of binary digits of a natural number.\<close>

fun bit_length :: "nat \<Rightarrow> nat" where
  "bit_length n = (if n = 0 then 0 else Suc (bit_length (n div 2)))"

declare bit_length.simps [simp del]

text \<open>The exponent \<open>e\<close> of a positive number: \<open>2 ^ e \<le> x < 2 ^ (e + 1)\<close>.\<close>

definition binary_exponent :: "real \<Rightarrow> int" where
  "binary_exponent x =
     (if 1 \<le> x then int (bit_length (nat \<lfloor>x\<rfloor>)) - 1
      else - int (bit_length (nat \<lceil>1 / x\<rceil> - 1)))"

text \<open>
  A Python float is an IEEE 754 double: 53 binary digits, the exponent no less than
  \<open>-1022\<close>. \<open>ulp x\<close> is the distance of the doubles around \<open>x\<close>, and \<open>double x\<close> the
  double nearest to \<open>x\<close>, the one with the even last digit of two nearest ones: the
  result of a float operation whose exact result is \<open>x\<close>, and the value of the literal
  that denotes \<open>x\<close>. Overflow is not modelled: no number of the two scripts comes near
  \<open>2 ^ 1024\<close>.
\<close>

definition ulp :: "real \<Rightarrow> real" where
  "ulp x = (let e = max (binary_exponent \<bar>x\<bar>) (- 1022) in 2 powi (e - 52))"

definition double :: "real \<Rightarrow> real" where
  "double x = (if x = 0 then 0 else of_int (round_half_even (x / ulp x)) * ulp x)"

text \<open>
  The arguments of a float operation are floats; a number that is not one stands for the
  float nearest to it, as a decimal literal does. The result is the float nearest to the
  exact result.
\<close>

definition float_times :: "real \<Rightarrow> real \<Rightarrow> real" where
  "float_times x y = double (double x * double y)"

definition float_minus :: "real \<Rightarrow> real \<Rightarrow> real" where
  "float_minus x y = double (double x - double y)"

text \<open>
  \<open>round(x, ndigits)\<close> on a float: the exact value of \<open>x\<close> is rounded to the nearest
  multiple of \<open>10 ** -ndigits\<close>, to the even one of two nearest ones, and the result is
  the double nearest to that decimal number.
\<close>

definition py_round :: "real \<Rightarrow> nat \<Rightarrow> real" where
  "py_round x ndigits = double (of_int (round_half_even (x * 10 ^ ndigits)) / 10 ^ ndigits)"

section \<open>Variant 1: \<open>Battery_Management_ui.py\<close>\<close>

subsection \<open>State of charge\<close>

definition voltage_ranges :: "(string \<times> real \<times> real) list" where
  "voltage_ranges =
     [(''lfp'', (25 / 10, 365 / 100)),
      (''nmc'', (3, 42 / 10)),
      (''nimh'', (1, 14 / 10)),
      (''lead-acid'', (18 / 10, 21 / 10))]"

text \<open>\<open>voltage_ranges.get(cell_type.lower(), (3.0, 4.2))\<close>\<close>

definition soc_range :: "string \<Rightarrow> real \<times> real" where
  "soc_range cell_type =
     (case map_of voltage_ranges (lower cell_type) of
        None \<Rightarrow> (3, 42 / 10)
      | Some r \<Rightarrow> r)"

definition calculate_soc :: "real \<Rightarrow> string \<Rightarrow> real" where
  "calculate_soc voltage cell_type =
     (let (min_v, max_v) = soc_range cell_type;
          soc = ((voltage - min_v) / (max_v - min_v)) * 100
      in max 0 (min 100 soc))"

subsection \<open>Health score\<close>

definition optimal_voltages :: "(string \<times> real) list" where
  "optimal_voltages =
     [(''lfp'', 33 / 10), (''nmc'', 37 / 10), (''nimh'', 125 / 100), (''lead-acid'', 2)]"

text \<open>\<open>optimal_voltages.get(cell_type.lower(), 3.7)\<close>\<close>

definition optimal_v :: "string \<Rightarrow> real" where
  "optimal_v cell_type =
     (case map_of optimal_voltages (lower cell_type) of
        None \<Rightarrow> 37 / 10
      | Some v \<Rightarrow> v)"

definition temp_penalty :: "real \<Rightarrow> real" where
  "temp_penalty temp =
     (if temp > 50 then min 30 ((temp - 50) * 3)
      else if temp > 40 then (temp - 40) * (15 / 10)
      else if temp < 0 then min 25 (\<bar>temp\<bar> * 2)
      else if temp < 10 then (10 - temp) * (8 / 10)
      else 0)"

definition voltage_penalty :: "real \<Rightarrow> string \<Rightarrow> real" where
  "voltage_penalty voltage cell_type =
     (let voltage_deviation = \<bar>voltage - optimal_v cell_type\<bar>
      in min 20 (voltage_deviation * 15))"

definition current_penalty :: "real \<Rightarrow> real" where
  "current_penalty current =
     (let abs_current = \<bar>current\<bar>
      in if abs_current > 8 then min 25 ((abs_current - 8) * 3)
         else if abs_current > 5 then (abs_current - 5) * (15 / 10)
         else 0)"

definition soc_penalty :: "real \<Rightarrow> real" where
  "soc_penalty soc =
     (if soc < 10 then (10 - soc) * 2
      else if soc > 95 then (soc - 95) * (15 / 10)
      else if soc < 20 then (20 - soc) * (5 / 10)
      else if soc > 90 then (soc - 90) * (8 / 10)
      else 0)"

text \<open>
  The last argument is the value drawn by \<open>random.uniform(-2, 2)\<close>. The score starts
  at 100 and the four blocks of the source subtract from it in this order.
\<close>

definition calculate_battery_health ::
  "real \<Rightarrow> real \<Rightarrow> real \<Rightarrow> real \<Rightarrow> string \<Rightarrow> real \<Rightarrow> real" where
  "calculate_battery_health voltage current temp soc cell_type noise =
     (let health_score = 100;
          health_score = health_score - temp_penalty temp;
          health_score = health_score - voltage_penalty voltage cell_type;
          health_score = health_score - current_penalty current;
          health_score = health_score - soc_penalty soc;
          health_score = health_score + noise
      in max 0 (min 100 health_score))"

subsection \<open>Status and suggestions\<close>

text \<open>
  The function starts from an empty list and appends to it; each block of the source is
  one binding of \<open>suggestions\<close> here. The table of optimal voltages it declares is the
  one of \<open>calculate_battery_health\<close>, literal for literal. Its last test subtracts two
  floats and compares the result with the float \<open>0.3\<close>, which is a little less than
  3/10: a deviation that is 0.3 on paper is more than \<open>0.3\<close> where the subtraction
  rounds it up.
\<close>

definition get_detailed_cell_status ::
  "real \<Rightarrow> real \<Rightarrow> real \<Rightarrow> real \<Rightarrow> string \<Rightarrow> string \<times> string \<times> string list" where
  "get_detailed_cell_status health temp voltage soc cell_type =
     (let suggestions = [];
          (status, status_class, suggestions) =
            (if health \<ge> 95 then (''Excellent'', ''status-excellent'', suggestions)
             else if health \<ge> 85 then (''Good'', ''status-good'', suggestions)
             else if health \<ge> 70 then
               (''Normal'', ''status-normal'', suggestions @ [''Monitor regularly''])
             else if health \<ge> 50 then
               (''Warning'', ''status-warning'', suggestions @ [''Check cell parameters''])
             else if health \<ge> 30 then
               (''Critical'', ''status-critical'', suggestions @ [''Immediate attention required''])
             else
               (''Danger'', ''status-danger'', suggestions @ [''Replace cell immediately'']));
          suggestions =
            (if temp > 45 then suggestions @ [''Cool down the battery'']
             else if temp < 5 then suggestions @ [''Warm up the battery'']
             else suggestions);
          suggestions =
            (if soc < 15 then suggestions @ [''Charge battery soon'']
             else if soc > 95 then suggestions @ [''Avoid overcharging'']
             else suggestions);
          suggestions =
            (if \<bar>float_minus voltage (optimal_v cell_type)\<bar> > double (3 / 10)
             then suggestions @ [''Check voltage regulation'']
             else suggestions)
      in (status, status_class, suggestions))"

subsection \<open>The cell store, the sidebar and the simulation tick\<close>

text \<open>The dictionary of one cell, with the keys the script gives it.\<close>

record ui_cell =
  ui_type :: string
  ui_voltage :: real
  ui_current :: real
  ui_temp :: real
  ui_capacity :: real
  ui_soc :: real
  ui_health :: real

text \<open>
  A cell that the store does not have yet is created from five draws:
  \<open>random.choice(["NMC", "LFP"])\<close>, \<open>random.uniform(3.0, 4.0)\<close> for the voltage,
  \<open>random.uniform(-2, 2)\<close> for the current, \<open>random.uniform(20, 35)\<close> for the
  temperature and \<open>random.uniform(60, 100)\<close> for the health. The sidebar update of the
  same iteration follows.
\<close>

definition new_ui_cell :: "string \<Rightarrow> real \<Rightarrow> real \<Rightarrow> real \<Rightarrow> real \<Rightarrow> ui_cell" where
  "new_ui_cell type_drawn base_voltage base_current base_temp health_drawn =
     \<lparr>ui_type = type_drawn,
      ui_voltage = base_voltage,
      ui_current = base_current,
      ui_temp = base_temp,
      ui_capacity = 0,
      ui_soc = 50,
      ui_health = health_drawn\<rparr>"


definition sidebar_update ::
  "string \<Rightarrow> real \<Rightarrow> real \<Rightarrow> real \<Rightarrow> real \<Rightarrow> ui_cell \<Rightarrow> ui_cell" where
  "sidebar_update cell_type voltage current temp health_draw cell =
     cell\<lparr>ui_type := cell_type,
          ui_voltage := voltage,
          ui_current := current,
          ui_temp := temp,
          ui_capacity := py_round (float_times voltage \<bar>current\<bar>) 2,
          ui_soc := calculate_soc voltage cell_type,
          ui_health := calculate_battery_health voltage current temp
                         (calculate_soc voltage cell_type) cell_type health_draw\<rparr>"

text \<open>
  The four draws the tick makes for one cell: \<open>random.uniform(-noise_level, noise_level)\<close>
  for the temperature, \<open>random.uniform(-noise_level*0.02, noise_level*0.02)\<close> for the
  voltage, \<open>random.uniform(-noise_level*0.5, noise_level*0.5)\<close> for the current, and the
  draw of the health scorer.
\<close>

record ui_draws =
  temp_draw :: real
  voltage_draw :: real
  current_draw :: real
  health_draw :: real

text \<open>
  The body of the loop over the cells, block by block: the temperature, the voltage, the
  current, then the dependent values.
\<close>

definition vary_temperature :: "ui_draws \<Rightarrow> ui_cell \<Rightarrow> ui_cell" where
  "vary_temperature d cell =
     (let temp_variation = temp_draw d;
          temp_variation =
            (if \<bar>ui_current cell\<bar> > 3 then temp_variation + \<bar>ui_current cell\<bar> * (1 / 10)
             else temp_variation);
          cell = cell\<lparr>ui_temp := ui_temp cell + temp_variation\<rparr>
      in cell\<lparr>ui_temp := max (- 10) (min 70 (ui_temp cell))\<rparr>)"

definition vary_voltage :: "ui_draws \<Rightarrow> ui_cell \<Rightarrow> ui_cell" where
  "vary_voltage d cell =
     (let voltage_variation = voltage_draw d;
          voltage_variation =
            (if ui_current cell < 0 then voltage_variation - \<bar>ui_current cell\<bar> * (2 / 1000)
             else voltage_variation);
          cell = cell\<lparr>ui_voltage := ui_voltage cell + voltage_variation\<rparr>
      in cell\<lparr>ui_voltage := max (1 / 10) (min 5 (ui_voltage cell))\<rparr>)"

definition vary_current :: "ui_draws \<Rightarrow> ui_cell \<Rightarrow> ui_cell" where
  "vary_current d cell =
     (let current_variation = current_draw d;
          cell = cell\<lparr>ui_current := ui_current cell + current_variation\<rparr>
      in cell\<lparr>ui_current := max (- 15) (min 15 (ui_current cell))\<rparr>)"

definition recalculate_dependent :: "ui_draws \<Rightarrow> ui_cell \<Rightarrow> ui_cell" where
  "recalculate_dependent d cell =
     (let cell = cell\<lparr>ui_soc := calculate_soc (ui_voltage cell) (ui_type cell)\<rparr>;
          cell = cell\<lparr>ui_capacity :=
                        py_round (float_times (ui_voltage cell) \<bar>ui_current cell\<bar>) 2\<rparr>
      in cell\<lparr>ui_health := calculate_battery_health (ui_voltage cell) (ui_current cell)
                                (ui_temp cell) (ui_soc cell) (ui_type cell) (health_draw d)\<rparr>)"

definition simulate_cell_ui :: "ui_draws \<Rightarrow> ui_cell \<Rightarrow> ui_cell" where
  "simulate_cell_ui d cell =
     recalculate_dependent d (vary_current d (vary_voltage d (vary_temperature d cell)))"

text \<open>
  \<open>cells_data\<close> keeps its keys in insertion order: an association list. \<open>draws\<close> gives
  the draws made for each key.
\<close>

definition simulate_cells_ui ::
  "(string \<Rightarrow> ui_draws) \<Rightarrow> (string \<times> ui_cell) list \<Rightarrow> (string \<times> ui_cell) list" where
  "simulate_cells_ui draws cells_data =
     map (\<lambda>(cell_key, cell). (cell_key, simulate_cell_ui (draws cell_key) cell)) cells_data"

subsection \<open>The two history buffers\<close>

record data_point =
  dp_timestamp :: real
  dp_cell_id :: string
  dp_voltage :: real
  dp_current :: real
  dp_temperature :: real
  dp_soc :: real
  dp_health :: real

record system_point =
  sp_timestamp :: real
  sp_avg_voltage :: real
  sp_avg_temp :: real
  sp_avg_soc :: real
  sp_avg_health :: real
  sp_total_capacity :: real

record ui_history =
  historical_data :: "system_point list"
  data_points :: "data_point list"

text \<open>
  \<open>np.mean\<close> of a list. The script has at least one cell (the slider of the number of
  cells starts at 1), so the list is never empty where it is called.
\<close>

definition mean :: "real list \<Rightarrow> real" where
  "mean xs = sum_list xs / real (length xs)"

definition cell_data_point :: "real \<Rightarrow> string \<times> ui_cell \<Rightarrow> data_point" where
  "cell_data_point current_time kc =
     (case kc of (cell_key, cell_data) \<Rightarrow>
        \<lparr>dp_timestamp = current_time,
         dp_cell_id = cell_key,
         dp_voltage = ui_voltage cell_data,
         dp_current = ui_current cell_data,
         dp_temperature = ui_temp cell_data,
         dp_soc = ui_soc cell_data,
         dp_health = ui_health cell_data\<rparr>)"

definition system_averages :: "real \<Rightarrow> (string \<times> ui_cell) list \<Rightarrow> system_point" where
  "system_averages current_time cells_data =
     (let total_voltage = sum_list (map (ui_voltage \<circ> snd) cells_data);
          avg_temp = mean (map (ui_temp \<circ> snd) cells_data);
          avg_soc = mean (map (ui_soc \<circ> snd) cells_data);
          avg_health = mean (map (ui_health \<circ> snd) cells_data);
          total_capacity = sum_list (map (ui_capacity \<circ> snd) cells_data)
      in \<lparr>sp_timestamp = current_time,
          sp_avg_voltage = total_voltage / real (length cells_data),
          sp_avg_temp = avg_temp,
          sp_avg_soc = avg_soc,
          sp_avg_health = avg_health,
          sp_total_capacity = total_capacity\<rparr>)"

text \<open>
  The trimming statement \<open>if len(xs) > n: xs = xs[-n:]\<close>: a list longer than \<open>n\<close>
  keeps its last \<open>n\<close> elements.
\<close>

definition keep_last :: "nat \<Rightarrow> 'a list \<Rightarrow> 'a list" where
  "keep_last n xs = (if length xs > n then drop (length xs - n) xs else xs)"

text \<open>
  The history part of one tick: one point per cell, one point of system averages, then
  the two trims.
\<close>

definition record_history_ui ::
  "real \<Rightarrow> (string \<times> ui_cell) list \<Rightarrow> ui_history \<Rightarrow> ui_history" where
  "record_history_ui current_time cells_data h =
     (let h = h\<lparr>data_points := data_points h @ map (cell_data_point current_time) cells_data\<rparr>;
          h = h\<lparr>historical_data :=
                  historical_data h @ [system_averages current_time cells_data]\<rparr>;
          h = h\<lparr>historical_data := keep_last 100 (historical_data h)\<rparr>;
          h = h\<lparr>data_points := keep_last 500 (data_points h)\<rparr>
      in h)"

text \<open>Tick after tick: each tick has its clock reading and the cells it sees.\<close>

fun record_history_ui_run ::
  "(real \<times> (string \<times> ui_cell) list) list \<Rightarrow> ui_history \<Rightarrow> ui_history" where
  "record_history_ui_run [] h = h"
| "record_history_ui_run ((current_time, cells_data) # ticks) h =
     record_history_ui_run ticks (record_history_ui current_time cells_data h)"

section \<open>Variant 2: \<open>Enhanced_bms.py\<close>\<close>

subsection \<open>Cells\<close>

text \<open>
  The dictionary of one cell. \<open>create_cell_data\<close> returns it without the key
  \<open>type\<close>; the caller adds the key in its next statement.
\<close>

record bms_cell =
  voltage :: real
  current :: real
  temp :: real
  capacity :: real
  min_voltage :: real
  max_voltage :: real
  soc :: real
  health :: real
  status :: string
  cell_type :: "string option"

text \<open>
  The draws are those of \<open>random.uniform(25, 40)\<close>, \<open>random.randint(20, 90)\<close> and
  \<open>random.randint(85, 100)\<close>.
\<close>

definition create_cell_data :: "string \<Rightarrow> nat \<Rightarrow> real \<Rightarrow> real \<Rightarrow> real \<Rightarrow> bms_cell" where
  "create_cell_data ctype cell_id temp_drawn soc_drawn health_drawn =
     (let voltage = (if ctype = ''lfp'' then 32 / 10 else 36 / 10);
          min_voltage = (if ctype = ''lfp'' then 28 / 10 else 32 / 10);
          max_voltage = (if ctype = ''lfp'' then 36 / 10 else 4);
          current = 0;
          temp = py_round temp_drawn 1;
          capacity = py_round (float_times voltage current) 2
      in \<lparr>voltage = voltage,
          current = current,
          temp = temp,
          capacity = capacity,
          min_voltage = min_voltage,
          max_voltage = max_voltage,
          soc = soc_drawn,
          health = health_drawn,
          status = ''IDLE'',
          cell_type = None\<rparr>)"

text \<open>The two statements that put a new cell into the store.\<close>

definition new_cell :: "string \<Rightarrow> nat \<Rightarrow> real \<Rightarrow> real \<Rightarrow> real \<Rightarrow> bms_cell" where
  "new_cell ctype cell_id temp_drawn soc_drawn health_drawn =
     (create_cell_data ctype cell_id temp_drawn soc_drawn health_drawn)\<lparr>cell_type := Some ctype\<rparr>"

text \<open>\<open>task_params.get(key, default)\<close> on the dictionary of a task's parameters.\<close>

definition params_get :: "(string \<times> real) list \<Rightarrow> string \<Rightarrow> real \<Rightarrow> real" where
  "params_get task_params k dflt =
     (case map_of task_params k of None \<Rightarrow> dflt | Some v \<Rightarrow> v)"

text \<open>
  \<open>simulate_battery_operation\<close>, block by block: the branch of the task type, the
  temperature, the capacity. The last argument of the function is the draw of
  \<open>random.uniform(-0.5, 0.5)\<close>.
\<close>

definition apply_task :: "bms_cell \<Rightarrow> string \<Rightarrow> (string \<times> real) list \<Rightarrow> bms_cell" where
  "apply_task cell_data task_type task_params =
     (if task_type = ''CC_CV'' then
        (let cell_data = cell_data\<lparr>current := params_get task_params ''current'' 1\<rparr>;
             cell_data = cell_data\<lparr>voltage :=
                           min (voltage cell_data + 1 / 100) (max_voltage cell_data)\<rparr>;
             cell_data = cell_data\<lparr>soc := min (soc cell_data + 5 / 10) 100\<rparr>
         in cell_data\<lparr>status := ''CHARGING''\<rparr>)
      else if task_type = ''CC_CD'' then
        (let cell_data = cell_data\<lparr>current := - \<bar>params_get task_params ''current'' 1\<bar>\<rparr>;
             cell_data = cell_data\<lparr>voltage :=
                           max (voltage cell_data - 1 / 100) (min_voltage cell_data)\<rparr>;
             cell_data = cell_data\<lparr>soc := max (soc cell_data - 3 / 10) 0\<rparr>
         in cell_data\<lparr>status := ''DISCHARGING''\<rparr>)
      else
        (let cell_data = cell_data\<lparr>current := 0\<rparr>
         in cell_data\<lparr>status := ''IDLE''\<rparr>))"

definition update_temperature :: "real \<Rightarrow> bms_cell \<Rightarrow> bms_cell" where
  "update_temperature temp_drawn cell_data =
     (if \<bar>current cell_data\<bar> > 0 then
        (let cell_data = cell_data\<lparr>temp := temp cell_data + temp_drawn\<rparr>
         in cell_data\<lparr>temp := max 20 (min 50 (temp cell_data))\<rparr>)
      else cell_data)"

definition update_capacity :: "bms_cell \<Rightarrow> bms_cell" where
  "update_capacity cell_data =
     cell_data\<lparr>capacity :=
                 py_round (float_times (voltage cell_data) \<bar>current cell_data\<bar>) 2\<rparr>"

definition simulate_battery_operation ::
  "bms_cell \<Rightarrow> string \<Rightarrow> (string \<times> real) list \<Rightarrow> real \<Rightarrow> bms_cell" where
  "simulate_battery_operation cell_data task_type task_params temp_drawn =
     update_capacity (update_temperature temp_drawn (apply_task cell_data task_type task_params))"

subsection \<open>The task sequence\<close>

record task =
  task_type :: string
  params :: "(string \<times> real) list"
  completed :: bool

text \<open>
  The widgets of the sidebar that describe a new task, under their keys. A slider returns
  a value between its bounds, and the select box one of its three options.
\<close>

record task_widgets =
  new_task :: string
  cc_cv_current :: real
  cc_cv_voltage :: real
  cc_cv_time :: real
  cc_cd_current :: real
  cc_cd_voltage :: real
  cc_cd_time :: real
  idle_time :: real

definition task_widgets_in_range :: "task_widgets \<Rightarrow> bool" where
  "task_widgets_in_range w \<longleftrightarrow>
     (new_task w = ''CC_CV'' \<or> new_task w = ''CC_CD'' \<or> new_task w = ''IDLE'') \<and>
     1 / 10 \<le> cc_cv_current w \<and> cc_cv_current w \<le> 5 \<and>
     3 \<le> cc_cv_voltage w \<and> cc_cv_voltage w \<le> 42 / 10 \<and>
     10 \<le> cc_cv_time w \<and> cc_cv_time w \<le> 300 \<and>
     1 / 10 \<le> cc_cd_current w \<and> cc_cd_current w \<le> 5 \<and>
     25 / 10 \<le> cc_cd_voltage w \<and> cc_cd_voltage w \<le> 35 / 10 \<and>
     10 \<le> cc_cd_time w \<and> cc_cd_time w \<le> 300 \<and>
     5 \<le> idle_time w \<and> idle_time w \<le> 120"

definition new_task_params :: "task_widgets \<Rightarrow> (string \<times> real) list" where
  "new_task_params w =
     (if new_task w = ''CC_CV'' then
        [(''current'', cc_cv_current w), (''cv_voltage'', cc_cv_voltage w),
         (''time_seconds'', cc_cv_time w)]
      else if new_task w = ''CC_CD'' then
        [(''current'', cc_cd_current w), (''voltage'', cc_cd_voltage w),
         (''time_seconds'', cc_cd_time w)]
      else
        [(''time_seconds'', idle_time w)])"

text \<open>
  The handler of the button that adds a task: the new sequence and the message it
  shows. It has no other outcome.
\<close>

definition add_task_to_sequence :: "task_widgets \<Rightarrow> task list \<Rightarrow> task list \<times> string" where
  "add_task_to_sequence w task_sequence =
     (let task_info = \<lparr>task_type = new_task w, params = new_task_params w, completed = False\<rparr>
      in (task_sequence @ [task_info], ''Added '' @ new_task w @ '' to sequence!''))"

text \<open>The duration of a task, where its parameters have one.\<close>

definition time_seconds :: "task \<Rightarrow> real option" where
  "time_seconds t = map_of (params t) ''time_seconds''"

definition positive_durations :: "task list \<Rightarrow> bool" where
  "positive_durations task_sequence =
     list_all (\<lambda>t. case time_seconds t of None \<Rightarrow> False | Some d \<Rightarrow> 0 < d) task_sequence"

subsection \<open>The sequencer\<close>

record sequencer =
  simulation_running :: bool
  task_sequence :: "task list"
  current_task_step :: nat
  task_start_time :: "real option"

datatype py_error = IndexError | KeyError

text \<open>
  The task sequence management of one run of the script. It reads the clock up to three
  times: \<open>now1\<close> when no task has started, \<open>now2\<close> for the elapsed time, \<open>now3\<close> when
  it starts the next task.
\<close>

definition sequencer_step :: "real \<times> real \<times> real \<Rightarrow> sequencer \<Rightarrow> py_error + sequencer" where
  "sequencer_step clock s =
     (case clock of (now1, now2, now3) \<Rightarrow>
        if simulation_running s \<and> task_sequence s \<noteq> [] then
          (let s = (if task_start_time s = None then s\<lparr>task_start_time := Some now1\<rparr> else s)
           in if current_task_step s \<ge> length (task_sequence s) then Inl IndexError
              else
                (let current_task = task_sequence s ! current_task_step s;
                     elapsed_time = now2 - the (task_start_time s)
                 in case time_seconds current_task of
                      None \<Rightarrow> Inl KeyError
                    | Some duration \<Rightarrow>
                        if elapsed_time \<ge> duration then
                          (let s = s\<lparr>task_sequence :=
                                       (task_sequence s)
                                         [current_task_step s := current_task\<lparr>completed := True\<rparr>]\<rparr>;
                               s = s\<lparr>current_task_step := current_task_step s + 1\<rparr>;
                               s = s\<lparr>task_start_time := Some now3\<rparr>
                           in if current_task_step s \<ge> length (task_sequence s) then
                                Inr (s\<lparr>simulation_running := False,
                                        current_task_step := 0,
                                        task_start_time := None\<rparr>)
                              else Inr s)
                        else Inr s))
        else Inr s)"

text \<open>Run after run of the script, each with its clock readings, until one raises.\<close>

fun sequencer_run :: "(real \<times> real \<times> real) list \<Rightarrow> sequencer \<Rightarrow> py_error + sequencer" where
  "sequencer_run [] s = Inr s"
| "sequencer_run (clock # clocks) s =
     (case sequencer_step clock s of
        Inl e \<Rightarrow> Inl e
      | Inr s' \<Rightarrow> sequencer_run clocks s')"

text \<open>The state when the simulation is started on a sequence of which no task has begun.\<close>

definition started :: "task list \<Rightarrow> sequencer" where
  "started q =
     \<lparr>simulation_running = True, task_sequence = q, current_task_step = 0,
      task_start_time = None\<rparr>"

text \<open>All the clock readings of a list of runs, in the order they are made.\<close>

definition readings :: "(real \<times> real \<times> real) list \<Rightarrow> real list" where
  "readings clocks = concat (map (\<lambda>(now1, now2, now3). [now1, now2, now3]) clocks)"

subsection \<open>The history store\<close>

record history_point =
  hp_timestamp :: real
  hp_cell :: string
  hp_voltage :: real
  hp_current :: real
  hp_temperature :: real
  hp_soc :: real
  hp_capacity :: real
  hp_status :: string

definition cell_history_point :: "real \<Rightarrow> string \<times> bms_cell \<Rightarrow> history_point" where
  "cell_history_point timestamp kc =
     (case kc of (cell_key, cell_data) \<Rightarrow>
        \<lparr>hp_timestamp = timestamp,
         hp_cell = cell_key,
         hp_voltage = voltage cell_data,
         hp_current = current cell_data,
         hp_temperature = temp cell_data,
         hp_soc = soc cell_data,
         hp_capacity = capacity cell_data,
         hp_status = status cell_data\<rparr>)"

text \<open>The history part of one run of the script while the simulation runs.\<close>

definition store_history_bms ::
  "real \<Rightarrow> (string \<times> bms_cell) list \<Rightarrow> history_point list \<Rightarrow> history_point list" where
  "store_history_bms timestamp cells_data history =
     history @ map (cell_history_point timestamp) cells_data"

fun store_history_bms_run ::
  "(real \<times> (string \<times> bms_cell) list) list \<Rightarrow> history_point list \<Rightarrow> history_point list" where
  "store_history_bms_run [] history = history"
| "store_history_bms_run ((timestamp, cells_data) # ticks) history =
     store_history_bms_run ticks (store_history_bms timestamp cells_data history)"

section \<open>The chemistry table as the specification words it\<close>

datatype chemistry = LFP | NMC | NiMH | LeadAcid

fun spec_range :: "chemistry \<Rightarrow> real \<times> real" where
  "spec_range LFP = (25 / 10, 365 / 100)"
| "spec_range NMC = (3, 42 / 10)"
| "spec_range NiMH = (1, 14 / 10)"
| "spec_range LeadAcid = (18 / 10, 21 / 10)"

text \<open>
  The chemistry a string names: the scripts write the four chemistries
  \<open>NMC\<close>, \<open>LFP\<close>, \<open>NiMH\<close> and \<open>Lead-Acid\<close>, in any letter case. Every other string is
  an unknown chemistry.
\<close>

definition chemistry_of :: "string \<Rightarrow> chemistry option" where
  "chemistry_of s =
     (if lower s = ''lfp'' then Some LFP
      else if lower s = ''nmc'' then Some NMC
      else if lower s = ''nimh'' then Some NiMH
      else if lower s = ''lead-acid'' then Some LeadAcid
      else None)"

definition estimate_soc_spec :: "real \<Rightarrow> chemistry option \<Rightarrow> real" where
  "estimate_soc_spec v chem =
     (let r = (case chem of None \<Rightarrow> spec_range NMC | Some c \<Rightarrow> spec_range c);
          interpolation = (v - fst r) / (snd r - fst r) * 100
      in if interpolation < 0 then 0
         else if 100 < interpolation then 100
         else interpolation)"

section \<open>The status classifier as the specification words it\<close>

fun spec_optimal :: "chemistry \<Rightarrow> real" where
  "spec_optimal LFP = 33 / 10"
| "spec_optimal NMC = 37 / 10"
| "spec_optimal NiMH = 125 / 100"
| "spec_optimal LeadAcid = 2"

definition status_label_spec :: "real \<Rightarrow> string" where
  "status_label_spec h =
     (if 95 \<le> h then ''Excellent''
      else if 85 \<le> h then ''Good''
      else if 70 \<le> h then ''Normal''
      else if 50 \<le> h then ''Warning''
      else if 30 \<le> h then ''Critical''
      else ''Danger'')"

definition health_suggestion :: "real \<Rightarrow> string list" where
  "health_suggestion h =
     (if 85 \<le> h then []
      else if 70 \<le> h then [''Monitor regularly'']
      else if 50 \<le> h then [''Check cell parameters'']
      else if 30 \<le> h then [''Immediate attention required'']
      else [''Replace cell immediately''])"

definition temperature_suggestion :: "real \<Rightarrow> string list" where
  "temperature_suggestion t =
     (if 45 < t then [''Cool down the battery'']
      else if t < 5 then [''Warm up the battery'']
      else [])"

definition soc_suggestion :: "real \<Rightarrow> string list" where
  "soc_suggestion x =
     (if x < 15 then [''Charge battery soon'']
      else if 95 < x then [''Avoid overcharging'']
      else [])"

text \<open>
  The deviation from the optimal voltage is the difference the floats give, and the
  threshold is the float \<open>0.3\<close>.
\<close>

definition voltage_suggestion :: "real \<Rightarrow> chemistry option \<Rightarrow> string list" where
  "voltage_suggestion v chem =
     (let optimal = (case chem of None \<Rightarrow> 37 / 10 | Some c \<Rightarrow> spec_optimal c)
      in if double (3 / 10) < \<bar>float_minus v optimal\<bar> then [''Check voltage regulation'']
         else [])"

text \<open>The enumeration order of the suggestions: health, temperature, SOC, voltage.\<close>

definition health_suggestions :: "string list" where
  "health_suggestions =
     [''Monitor regularly'', ''Check cell parameters'', ''Immediate attention required'',
      ''Replace cell immediately'']"

definition temperature_suggestions :: "string list" where
  "temperature_suggestions = [''Cool down the battery'', ''Warm up the battery'']"

definition soc_suggestions :: "string list" where
  "soc_suggestions = [''Charge battery soon'', ''Avoid overcharging'']"

definition voltage_suggestions :: "string list" where
  "voltage_suggestions = [''Check voltage regulation'']"

definition suggestion_order :: "string list" where
  "suggestion_order =
     health_suggestions @ temperature_suggestions @ soc_suggestions @ voltage_suggestions"

section \<open>Invariants of the cells\<close>

text \<open>The voltage of a cell of variant 2 lies between the two bounds the cell carries.\<close>

definition voltage_in_bounds :: "bms_cell \<Rightarrow> bool" where
  "voltage_in_bounds c \<longleftrightarrow> min_voltage c \<le> voltage c \<and> voltage c \<le> max_voltage c"

section \<open>The history of a run, as the list of everything it appended\<close>

text \<open>The points that a list of ticks appends to the two buffers of variant 1.\<close>

definition system_points :: "(real \<times> (string \<times> ui_cell) list) list \<Rightarrow> system_point list" where
  "system_points ticks = map (\<lambda>(current_time, cells_data). system_averages current_time cells_data) ticks"

definition cell_points :: "(real \<times> (string \<times> ui_cell) list) list \<Rightarrow> data_point list" where
  "cell_points ticks =
     concat (map (\<lambda>(current_time, cells_data). map (cell_data_point current_time) cells_data) ticks)"

text \<open>The points that a list of ticks appends to the store of variant 2.\<close>

definition history_points :: "(real \<times> (string \<times> bms_cell) list) list \<Rightarrow> history_point list" where
  "history_points ticks =
     concat (map (\<lambda>(timestamp, cells_data). map (cell_history_point timestamp) cells_data) ticks)"

text \<open>The store of variant 1 at the start of a session and after a reset.\<close>

definition empty_history :: ui_history where
  "empty_history = \<lparr>historical_data = [], data_points = []\<rparr>"

text \<open>A store of one cell of variant 2, and a run of 501 ticks, one a second.\<close>

definition one_cell :: "(string \<times> bms_cell) list" where
  "one_cell = [(''cell_1'', new_cell ''lfp'' 1 30 50 90)]"

definition ticks_501 :: "(real \<times> (string \<times> bms_cell) list) list" where
  "ticks_501 = map (\<lambda>n. (real n, one_cell)) [0..<501]"

section \<open>Runs of the sequencer\<close>

text \<open>Runs of the script each of which reads the clock at one instant.\<close>

definition at_instants :: "real list \<Rightarrow> (real \<times> real \<times> real) list" where
  "at_instants ts = map (\<lambda>t. (t, t, t)) ts"

text \<open>A charge of 10 seconds, a discharge of 20 seconds and an idle time of 5 seconds.\<close>

definition example_queue :: "task list" where
  "example_queue =
     [\<lparr>task_type = ''CC_CV'',
       params = [(''current'', 1), (''cv_voltage'', 4), (''time_seconds'', 10)],
       completed = False\<rparr>,
      \<lparr>task_type = ''CC_CD'',
       params = [(''current'', 1), (''voltage'', 3), (''time_seconds'', 20)],
       completed = False\<rparr>,
      \<lparr>task_type = ''IDLE'', params = [(''time_seconds'', 5)], completed = False\<rparr>]"

text \<open>The state the specification calls Completed.\<close>

definition finished :: "task list \<Rightarrow> sequencer" where
  "finished q =
     \<lparr>simulation_running = False,
      task_sequence = map (\<lambda>t. t\<lparr>completed := True\<rparr>) q,
      current_task_step = 0,
      task_start_time = None\<rparr>"

text \<open>The sequence \<open>q\<close> once its first \<open>k\<close> tasks are completed.\<close>

fun progressed :: "task list \<Rightarrow> nat \<Rightarrow> task list" where
  "progressed [] k = []"
| "progressed (t # q) 0 = t # q"
| "progressed (t # q) (Suc k) = t\<lparr>completed := True\<rparr> # progressed q k"

text \<open>
  A run of the script finds a task of some duration due when its second clock reading is
  at least the duration after the start time of the task; a list of runs is waiting for
  the task when none of them finds it due. The run that finds a task due restarts the
  timer with its third clock reading.
\<close>

definition due :: "real \<Rightarrow> real \<Rightarrow> real \<times> real \<times> real \<Rightarrow> bool" where
  "due duration start clock \<longleftrightarrow> (case clock of (now1, now2, now3) \<Rightarrow> duration \<le> now2 - start)"

definition waiting :: "real \<Rightarrow> real \<Rightarrow> (real \<times> real \<times> real) list \<Rightarrow> bool" where
  "waiting duration start clocks \<longleftrightarrow> list_all (\<lambda>clock. \<not> due duration start clock) clocks"

definition restart :: "real \<times> real \<times> real \<Rightarrow> real" where
  "restart clock = (case clock of (now1, now2, now3) \<Rightarrow> now3)"

text \<open>The first clock reading of a list of runs: the start time of the first task.\<close>

definition first_reading :: "(real \<times> real \<times> real) list \<Rightarrow> real" where
  "first_reading clocks = (case clocks of [] \<Rightarrow> 0 | (now1, now2, now3) # rest \<Rightarrow> now1)"

text \<open>
  Whether a list of runs serves a list of durations, the first of which started at
  \<open>start\<close>: each task is completed by the first run that finds it due, the next task
  starts with the third clock reading of that run, and the runs after it serve the rest.
\<close>

fun served :: "real list \<Rightarrow> real \<Rightarrow> (real \<times> real \<times> real) list \<Rightarrow> bool" where
  "served [] start clocks = True"
| "served (d # ds) start [] = False"
| "served (d # ds) start (clock # clocks) =
     (if due d start clock then served ds (restart clock) clocks
      else served (d # ds) start clocks)"

text \<open>The sequencer while it runs task \<open>k\<close> of \<open>q\<close>, started at \<open>start\<close>.\<close>

definition running_task :: "task list \<Rightarrow> nat \<Rightarrow> real \<Rightarrow> sequencer" where
  "running_task q k start =
     \<lparr>simulation_running = True, task_sequence = progressed q k, current_task_step = k,
      task_start_time = Some start\<rparr>"

text \<open>
  What holds of the sequencer between two runs of the script, for a sequence \<open>q\<close> of
  durations \<open>ds\<close> started at \<open>t0\<close>, when \<open>hi\<close> is the last clock reading made: while it
  runs, the tasks before the current one are completed and the current one started no
  earlier than the durations before it allow; once it has stopped, it is in the
  Completed state and the durations have all elapsed.
\<close>

definition seq_inv :: "task list \<Rightarrow> real list \<Rightarrow> real \<Rightarrow> real \<Rightarrow> sequencer \<Rightarrow> bool" where
  "seq_inv q ds t0 hi s \<longleftrightarrow>
     (if simulation_running s then
        current_task_step s < length q \<and>
        task_sequence s = progressed q (current_task_step s) \<and>
        (case task_start_time s of
           None \<Rightarrow> current_task_step s = 0
         | Some st \<Rightarrow> t0 + sum_list (take (current_task_step s) ds) \<le> st \<and> st \<le> hi)
      else s = finished q \<and> t0 + sum_list ds \<le> hi)"

section \<open>Properties of the floats\<close>



lemma ulp_positive: "0 < ulp x"
  by (simp add: ulp_def Let_def)





lemma bit_length_bounds: "0 < n \<Longrightarrow> 2 ^ (bit_length n - 1) \<le> n \<and> n < 2 ^ bit_length n"
proof (induction n rule: bit_length.induct)
  case (1 n)
  show ?case
  proof (cases "n div 2 = 0")
    case True
    with "1.prems" have "n = 1"
      by (simp add: div_eq_0_iff)
    then show ?thesis
      by (simp add: bit_length.simps)
  next
    case False
    with "1.IH" "1.prems" have ih: "2 ^ (bit_length (n div 2) - 1) \<le> n div 2"
      "n div 2 < 2 ^ bit_length (n div 2)"
      by simp_all
    from False have pos: "0 < bit_length (n div 2)"
      by (simp add: bit_length.simps)
    have len: "bit_length n = Suc (bit_length (n div 2))"
      using "1.prems" by (subst bit_length.simps) simp
    from pos have "(2::nat) ^ bit_length (n div 2) = 2 * 2 ^ (bit_length (n div 2) - 1)"
      by (cases "bit_length (n div 2)") simp_all
    with ih show ?thesis
      by (simp add: len) linarith
  qed
qed

lemma binary_exponent_bounds:
  assumes "0 < x"
  shows "2 powi binary_exponent x \<le> x \<and> x < 2 powi (binary_exponent x + 1)"
proof (cases "1 \<le> x")
  case True
  define n where "n = nat \<lfloor>x\<rfloor>"
  from True have n: "0 < n" "real n \<le> x" "x < real n + 1"
    by (simp_all add: n_def)
  from bit_length_bounds [OF n(1)]
  have b: "2 ^ (bit_length n - 1) \<le> n" "n < 2 ^ bit_length n"
    by simp_all
  from b(2) n(1) have pos: "0 < bit_length n"
    by (cases "bit_length n") simp_all
  have e: "binary_exponent x = int (bit_length n - 1)"
    using True pos by (simp add: binary_exponent_def n_def [symmetric])
  have "real (2 ^ (bit_length n - 1)) \<le> real n"
    using b(1) by (rule of_nat_mono)
  then have "(2::real) ^ (bit_length n - 1) \<le> real n"
    by simp
  with n(2) have lower: "2 ^ (bit_length n - 1) \<le> x"
    by linarith
  from b(2) have "n + 1 \<le> 2 ^ bit_length n"
    by simp
  then have "real (n + 1) \<le> real (2 ^ bit_length n)"
    by (rule of_nat_mono)
  then have "real n + 1 \<le> (2::real) ^ bit_length n"
    by simp
  with n(3) have upper: "x < 2 ^ bit_length n"
    by linarith
  have "binary_exponent x + 1 = int (bit_length n)"
    using pos by (simp add: e)
  then have "(2::real) powi (binary_exponent x + 1) = 2 ^ bit_length n"
    by (simp only: power_int_of_nat)
  moreover have "(2::real) powi binary_exponent x = 2 ^ (bit_length n - 1)"
    by (simp only: e power_int_of_nat)
  ultimately show ?thesis
    using lower upper by (simp only:)
next
  case False
  define m where "m = nat \<lceil>1 / x\<rceil>"
  define k where "k = bit_length (m - 1)"
  from False assms have y: "1 < 1 / x"
    by simp
  then have m: "2 \<le> m" "1 / x \<le> real m" "real m - 1 < 1 / x"
    by (simp_all add: m_def) linarith+
  then have "0 < m - 1"
    by simp
  from bit_length_bounds [OF this]
  have b: "2 ^ (k - 1) \<le> m - 1" "m - 1 < 2 ^ k"
    by (simp_all add: k_def)
  from b(2) m(1) have pos: "0 < k"
    by (cases k) simp_all
  have e: "binary_exponent x = - int k"
    using False by (simp add: binary_exponent_def m_def [symmetric] k_def)
  from b(2) m(1) have "m \<le> 2 ^ k"
    by simp
  then have "real m \<le> real (2 ^ k)"
    by (rule of_nat_mono)
  then have "real m \<le> (2::real) ^ k"
    by simp
  with m(2) have "1 / x \<le> 2 ^ k"
    by linarith
  with assms have lower: "1 / 2 ^ k \<le> x"
    by (simp add: field_simps)
  from b(1) have "real (2 ^ (k - 1)) \<le> real (m - 1)"
    by (rule of_nat_mono)
  moreover from m(1) have "real (m - 1) = real m - 1"
    by (simp add: of_nat_diff)
  ultimately have "(2::real) ^ (k - 1) \<le> real m - 1"
    by simp
  with m(3) have "2 ^ (k - 1) < 1 / x"
    by linarith
  with assms have upper: "x < 1 / 2 ^ (k - 1)"
    by (simp add: field_simps)
  have "binary_exponent x + 1 = - int (k - 1)"
    using pos by (simp add: e)
  then have "(2::real) powi (binary_exponent x + 1) = 1 / 2 ^ (k - 1)"
    by (simp only: power_int_minus power_int_of_nat inverse_eq_divide)
  moreover have "(2::real) powi binary_exponent x = 1 / 2 ^ k"
    by (simp only: e power_int_minus power_int_of_nat inverse_eq_divide)
  ultimately show ?thesis
    using lower upper by (simp only:)
qed

lemma round_half_even_error: "\<bar>of_int (round_half_even x) - x\<bar> \<le> 1 / 2"
  by (simp add: round_half_even_def Let_def)

lemma double_error: "\<bar>double x - x\<bar> \<le> ulp x / 2"
proof (cases "x = 0")
  case True
  then show ?thesis
    using ulp_positive [of 0] by (simp add: double_def)
next
  case False
  have "double x - x = (of_int (round_half_even (x / ulp x)) - x / ulp x) * ulp x"
    using ulp_positive [of x] False by (simp add: double_def field_simps)
  then have "\<bar>double x - x\<bar> = \<bar>of_int (round_half_even (x / ulp x)) - x / ulp x\<bar> * ulp x"
    using ulp_positive [of x] by (simp add: abs_mult)
  also have "\<dots> \<le> 1 / 2 * ulp x"
    using round_half_even_error [of "x / ulp x"] ulp_positive [of x]
    by (intro mult_right_mono) simp_all
  finally show ?thesis
    by simp
qed


section \<open>Properties of the state-of-charge estimator\<close>

lemma soc_range_cases:
  "soc_range s =
     (if lower s = ''lfp'' then (25 / 10, 365 / 100)
      else if lower s = ''nmc'' then (3, 42 / 10)
      else if lower s = ''nimh'' then (1, 14 / 10)
      else if lower s = ''lead-acid'' then (18 / 10, 21 / 10)
      else (3, 42 / 10))"
  by (simp add: soc_range_def voltage_ranges_def)

lemma soc_range_chemistry:
  "soc_range s = (case chemistry_of s of None \<Rightarrow> spec_range NMC | Some c \<Rightarrow> spec_range c)"
  by (simp add: soc_range_cases chemistry_of_def)

lemma soc_range_ordered: "fst (soc_range s) < snd (soc_range s)"
  by (simp add: soc_range_cases)

lemma lower_examples:
  "lower ''LFP'' = ''lfp''" "lower ''NMC'' = ''nmc''" "lower ''NiMH'' = ''nimh''"
  "lower ''Lead-Acid'' = ''lead-acid''" "lower ''lfp'' = ''lfp''" "lower ''nmc'' = ''nmc''"
  by (simp_all add: lower_def lower_char_def upper_lower_table_def)

text \<open>
  C1. For every voltage and every chemistry string, \<open>calculate_soc\<close> returns the linear
  interpolation \<open>(voltage - min_v) / (max_v - min_v) * 100\<close> clamped to \<open>[0, 100]\<close>, where
  \<open>(min_v, max_v)\<close> is the table entry of the chemistry the string names, LFP (2.5, 3.65),
  NMC (3.0, 4.2), NiMH (1.0, 1.4), LeadAcid (1.8, 2.1), and the range of NMC for a string
  that names none of them.
\<close>

theorem calculate_soc_is_clamped_interpolation:
  "calculate_soc v s = estimate_soc_spec v (chemistry_of s) \<and>
   calculate_soc v ''LFP'' = estimate_soc_spec v (Some LFP) \<and>
   calculate_soc v ''NMC'' = estimate_soc_spec v (Some NMC) \<and>
   calculate_soc v ''NiMH'' = estimate_soc_spec v (Some NiMH) \<and>
   calculate_soc v ''Lead-Acid'' = estimate_soc_spec v (Some LeadAcid) \<and>
   calculate_soc v ''Li-ion'' = estimate_soc_spec v None"
proof -
  have general: "calculate_soc v s = estimate_soc_spec v (chemistry_of s)" for s
    by (simp add: calculate_soc_def estimate_soc_spec_def soc_range_chemistry Let_def
        split: prod.splits option.splits)
  have "chemistry_of ''LFP'' = Some LFP" "chemistry_of ''NMC'' = Some NMC"
    "chemistry_of ''NiMH'' = Some NiMH" "chemistry_of ''Lead-Acid'' = Some LeadAcid"
    "chemistry_of ''Li-ion'' = None"
    by (simp_all add: chemistry_of_def lower_def lower_char_def upper_lower_table_def)
  with general [of s] general [of "''LFP''"] general [of "''NMC''"] general [of "''NiMH''"]
    general [of "''Lead-Acid''"] general [of "''Li-ion''"]
  show ?thesis
    by (simp only: simp_thms)
qed

text \<open>
  C2. For every chemistry string, \<open>calculate_soc\<close> is monotonically non-decreasing in
  the voltage, and its result lies in \<open>[0, 100]\<close> for every voltage, in range or not.
\<close>

theorem calculate_soc_monotone_and_bounded:
  "(v1 \<le> v2 \<longrightarrow> calculate_soc v1 s \<le> calculate_soc v2 s) \<and>
   0 \<le> calculate_soc v s \<and> calculate_soc v s \<le> 100"
proof -
  obtain lo hi where r: "soc_range s = (lo, hi)"
    by (cases "soc_range s")
  with soc_range_ordered [of s] have pos: "0 < hi - lo"
    by simp
  have mono: "(v1 - lo) / (hi - lo) * 100 \<le> (v2 - lo) / (hi - lo) * 100" if "v1 \<le> v2"
    using that pos by (simp add: divide_right_mono)
  show ?thesis
    using mono by (auto simp add: calculate_soc_def r Let_def)
qed

theorem calculate_soc_monotone_and_bounded_witness:
  "(3 :: real) \<le> 35 / 10 \<and>
   calculate_soc 3 ''LFP'' \<le> calculate_soc (35 / 10) ''LFP'' \<and>
   0 \<le> calculate_soc 7 ''LFP'' \<and> calculate_soc 7 ''LFP'' \<le> 100"
  using calculate_soc_monotone_and_bounded [of 3 "35 / 10" "''LFP''" 7]
  by simp

section \<open>Properties of the health scorer\<close>

text \<open>
  C3. For every voltage, current, temperature, soc and chemistry string, extreme or out
  of range, and for every noise draw (those of \<open>[-2, 2]\<close> among them),
  \<open>calculate_battery_health\<close> returns a value in \<open>[0, 100]\<close>.
\<close>

theorem calculate_battery_health_bounded:
  "0 \<le> calculate_battery_health v i t x s noise \<and>
   calculate_battery_health v i t x s noise \<le> 100"
  by (simp add: calculate_battery_health_def Let_def)

section \<open>Properties of the status classifier\<close>

lemma optimal_v_chemistry:
  "optimal_v s = (case chemistry_of s of None \<Rightarrow> 37 / 10 | Some c \<Rightarrow> spec_optimal c)"
  by (simp add: optimal_v_def optimal_voltages_def chemistry_of_def)

lemma status_label: "fst (get_detailed_cell_status h t v x s) = status_label_spec h"
  by (simp add: get_detailed_cell_status_def status_label_spec_def Let_def)

lemma status_suggestions:
  "snd (snd (get_detailed_cell_status h t v x s)) =
     health_suggestion h @ temperature_suggestion t @ soc_suggestion x @
     voltage_suggestion v (chemistry_of s)"
  by (simp add: get_detailed_cell_status_def health_suggestion_def
      temperature_suggestion_def soc_suggestion_def voltage_suggestion_def
      optimal_v_chemistry Let_def)

lemma subseq_health: "subseq (health_suggestion h) health_suggestions"
  by (simp add: health_suggestion_def health_suggestions_def)

lemma subseq_temperature: "subseq (temperature_suggestion t) temperature_suggestions"
  by (simp add: temperature_suggestion_def temperature_suggestions_def)

lemma subseq_soc: "subseq (soc_suggestion x) soc_suggestions"
  by (simp add: soc_suggestion_def soc_suggestions_def)

lemma subseq_voltage: "subseq (voltage_suggestion v c) voltage_suggestions"
  by (simp add: voltage_suggestion_def voltage_suggestions_def Let_def)

lemma subseq_suggestion_order:
  "subseq (health_suggestion h @ temperature_suggestion t @ soc_suggestion x @
      voltage_suggestion v c) suggestion_order"
  unfolding suggestion_order_def
  by (intro list_emb_append_mono subseq_health subseq_temperature subseq_soc subseq_voltage)

lemma float_deviations:
  "double (3 / 10) < \<bar>float_minus (34 / 10) (37 / 10)\<bar>"
  "double (3 / 10) < \<bar>float_minus (36 / 10) (33 / 10)\<bar>"
  "\<not> double (3 / 10) < \<bar>float_minus 4 (37 / 10)\<bar>"
  "double (3 / 10) < \<bar>float_minus (42 / 10) (37 / 10)\<bar>"
  by (simp_all add: float_minus_def double_def ulp_def binary_exponent_def bit_length.simps
      round_half_even_def Let_def)

text \<open>
  C4. \<open>get_detailed_cell_status\<close> is deterministic: it draws nothing and reads no
  state, so two calls with the same health, temperature, voltage, soc and chemistry give
  the same status label and the same suggestions. The label is the first threshold the
  health reaches, and the suggestions are the health-based one, then the one of the
  temperature, then the one of the SOC, then the one of the voltage deviation: a
  subsequence of the enumeration order. The voltage deviation is the one the floats
  give: an NMC cell at 3.4 V and an LFP cell at 3.6 V get the suggestion, an NMC cell at
  4.0 V does not.
\<close>

theorem get_detailed_cell_status_deterministic_ordered:
  "(h' = h \<and> t' = t \<and> v' = v \<and> x' = x \<and> s' = s \<longrightarrow>
      get_detailed_cell_status h' t' v' x' s' = get_detailed_cell_status h t v x s) \<and>
   fst (get_detailed_cell_status h t v x s) = status_label_spec h \<and>
   snd (snd (get_detailed_cell_status h t v x s)) =
     health_suggestion h @ temperature_suggestion t @ soc_suggestion x @
     voltage_suggestion v (chemistry_of s) \<and>
   subseq (snd (snd (get_detailed_cell_status h t v x s))) suggestion_order \<and>
   snd (snd (get_detailed_cell_status 96 25 (34 / 10) 50 ''NMC'')) =
     [''Check voltage regulation''] \<and>
   snd (snd (get_detailed_cell_status 96 25 (36 / 10) 50 ''LFP'')) =
     [''Check voltage regulation''] \<and>
   snd (snd (get_detailed_cell_status 96 25 4 50 ''NMC'')) = []"
proof -
  have nmc: "chemistry_of ''NMC'' = Some NMC" and lfp: "chemistry_of ''LFP'' = Some LFP"
    by (simp_all add: chemistry_of_def lower_examples)
  have "snd (snd (get_detailed_cell_status 96 25 (34 / 10) 50 ''NMC'')) =
      [''Check voltage regulation'']"
    using float_deviations(1)
    by (simp add: status_suggestions nmc health_suggestion_def temperature_suggestion_def
        soc_suggestion_def voltage_suggestion_def)
  moreover
  have "snd (snd (get_detailed_cell_status 96 25 (36 / 10) 50 ''LFP'')) =
      [''Check voltage regulation'']"
    using float_deviations(2)
    by (simp add: status_suggestions lfp health_suggestion_def temperature_suggestion_def
        soc_suggestion_def voltage_suggestion_def)
  moreover
  have "snd (snd (get_detailed_cell_status 96 25 4 50 ''NMC'')) = []"
    using float_deviations(3)
    by (simp add: status_suggestions nmc health_suggestion_def temperature_suggestion_def
        soc_suggestion_def voltage_suggestion_def)
  moreover
  have "h' = h \<and> t' = t \<and> v' = v \<and> x' = x \<and> s' = s \<longrightarrow>
      get_detailed_cell_status h' t' v' x' s' = get_detailed_cell_status h t v x s"
    by simp
  ultimately show ?thesis
    using status_label [of h t v x s] status_suggestions [of h t v x s]
      subseq_suggestion_order [of h t x v "chemistry_of s"]
    by (simp only: simp_thms)
qed

theorem get_detailed_cell_status_deterministic_ordered_witness:
  "get_detailed_cell_status 60 55 (42 / 10) 98 ''NMC'' =
     get_detailed_cell_status 60 55 (42 / 10) 98 ''NMC'' \<and>
   fst (get_detailed_cell_status 60 55 (42 / 10) 98 ''NMC'') = ''Warning'' \<and>
   snd (snd (get_detailed_cell_status 60 55 (42 / 10) 98 ''NMC'')) =
     [''Check cell parameters'', ''Cool down the battery'', ''Avoid overcharging'',
      ''Check voltage regulation'']"
proof -
  have nmc: "chemistry_of ''NMC'' = Some NMC"
    by (simp add: chemistry_of_def lower_examples)
  from get_detailed_cell_status_deterministic_ordered
    [of 60 60 55 55 "42 / 10" "42 / 10" 98 98 "''NMC''" "''NMC''"]
  have "fst (get_detailed_cell_status 60 55 (42 / 10) 98 ''NMC'') =
      status_label_spec 60"
    and "snd (snd (get_detailed_cell_status 60 55 (42 / 10) 98 ''NMC'')) =
      health_suggestion 60 @ temperature_suggestion 55 @ soc_suggestion 98 @
      voltage_suggestion (42 / 10) (chemistry_of ''NMC'')"
    by simp_all
  then show ?thesis
    using float_deviations(4)
    by (simp add: nmc status_label_spec_def health_suggestion_def temperature_suggestion_def
        soc_suggestion_def voltage_suggestion_def)
qed

section \<open>Properties of the cell updates\<close>

subsection \<open>Variant 1\<close>

lemma recalculate_dependent_fields:
  "ui_voltage (recalculate_dependent d c) = ui_voltage c"
  "ui_current (recalculate_dependent d c) = ui_current c"
  "ui_capacity (recalculate_dependent d c) =
     py_round (float_times (ui_voltage c) \<bar>ui_current c\<bar>) 2"
  by (simp_all add: recalculate_dependent_def Let_def)

lemma vary_current_voltage: "ui_voltage (vary_current d c) = ui_voltage c"
  by (simp add: vary_current_def Let_def)

lemma vary_voltage_clamped:
  "1 / 10 \<le> ui_voltage (vary_voltage d c) \<and> ui_voltage (vary_voltage d c) \<le> 5"
  by (simp add: vary_voltage_def Let_def)

lemma simulate_cell_ui_voltage:
  "1 / 10 \<le> ui_voltage (simulate_cell_ui d c) \<and> ui_voltage (simulate_cell_ui d c) \<le> 5"
  by (simp only: simulate_cell_ui_def recalculate_dependent_fields vary_current_voltage
      vary_voltage_clamped)

lemma simulate_cells_ui_voltage:
  "list_all (\<lambda>(k, c). 1 / 10 \<le> ui_voltage c \<and> ui_voltage c \<le> 5)
     (simulate_cells_ui draws cells)"
proof (induction cells)
  case Nil
  show ?case by (simp add: simulate_cells_ui_def)
next
  case (Cons kc cells)
  obtain k c where kc: "kc = (k, c)"
    by (cases kc)
  from simulate_cell_ui_voltage [of "draws k" c] Cons show ?case
    by (simp add: simulate_cells_ui_def kc)
qed




subsection \<open>Variant 2\<close>

lemma new_cell_in_bounds: "voltage_in_bounds (new_cell ct k a b e)"
  by (simp add: voltage_in_bounds_def new_cell_def create_cell_data_def Let_def)



lemma apply_task_unchanged:
  "health (apply_task c tt tp) = health c"
  "min_voltage (apply_task c tt tp) = min_voltage c"
  "max_voltage (apply_task c tt tp) = max_voltage c"
  "cell_type (apply_task c tt tp) = cell_type c"
  by (simp_all add: apply_task_def Let_def)

lemma apply_task_voltage:
  "voltage (apply_task c tt tp) =
     (if tt = ''CC_CV'' then min (voltage c + 1 / 100) (max_voltage c)
      else if tt = ''CC_CD'' then max (voltage c - 1 / 100) (min_voltage c)
      else voltage c)"
  by (simp add: apply_task_def Let_def)

lemma update_temperature_unchanged:
  "health (update_temperature dr c) = health c"
  "min_voltage (update_temperature dr c) = min_voltage c"
  "max_voltage (update_temperature dr c) = max_voltage c"
  "cell_type (update_temperature dr c) = cell_type c"
  "voltage (update_temperature dr c) = voltage c"
  "current (update_temperature dr c) = current c"
  by (simp_all add: update_temperature_def Let_def)

lemma update_capacity_unchanged:
  "health (update_capacity c) = health c"
  "min_voltage (update_capacity c) = min_voltage c"
  "max_voltage (update_capacity c) = max_voltage c"
  "cell_type (update_capacity c) = cell_type c"
  "voltage (update_capacity c) = voltage c"
  "current (update_capacity c) = current c"
  "capacity (update_capacity c) = py_round (float_times (voltage c) \<bar>current c\<bar>) 2"
  by (simp_all add: update_capacity_def)

lemma simulate_battery_operation_unchanged:
  "health (simulate_battery_operation c tt tp dr) = health c"
  "min_voltage (simulate_battery_operation c tt tp dr) = min_voltage c"
  "max_voltage (simulate_battery_operation c tt tp dr) = max_voltage c"
  "cell_type (simulate_battery_operation c tt tp dr) = cell_type c"
  by (simp_all only: simulate_battery_operation_def update_capacity_unchanged
      update_temperature_unchanged apply_task_unchanged)

lemma simulate_battery_operation_voltage:
  "voltage (simulate_battery_operation c tt tp dr) =
     (if tt = ''CC_CV'' then min (voltage c + 1 / 100) (max_voltage c)
      else if tt = ''CC_CD'' then max (voltage c - 1 / 100) (min_voltage c)
      else voltage c)"
  by (simp only: simulate_battery_operation_def update_capacity_unchanged
      update_temperature_unchanged apply_task_voltage)

lemma simulate_battery_operation_in_bounds:
  "voltage_in_bounds c \<Longrightarrow> voltage_in_bounds (simulate_battery_operation c tt tp dr)"
  by (auto simp add: voltage_in_bounds_def simulate_battery_operation_unchanged
      simulate_battery_operation_voltage)


lemma simulate_battery_operation_restore:
  "(simulate_battery_operation c tt tp dr)
     \<lparr>current := current c, voltage := voltage c, soc := soc c, status := status c,
      temp := temp c, capacity := capacity c\<rparr> = c"
  by (rule bms_cell.equality) (simp_all add: simulate_battery_operation_unchanged)

subsection \<open>The voltage after a tick\<close>

text \<open>
  C5, as amended. After a tick of variant 1 the voltage of every cell lies in the generic
  range \<open>[0.1, 5.0]\<close>, whatever the chemistry. In variant 2 a new cell has its voltage
  between its \<open>min_voltage\<close> and its \<open>max_voltage\<close>, and a tick keeps it there, for
  every task.
\<close>

theorem voltage_range_after_tick:
  "1 / 10 \<le> ui_voltage (simulate_cell_ui d c1) \<and> ui_voltage (simulate_cell_ui d c1) \<le> 5 \<and>
   list_all (\<lambda>(k, c). 1 / 10 \<le> ui_voltage c \<and> ui_voltage c \<le> 5)
     (simulate_cells_ui draws cells) \<and>
   voltage_in_bounds (new_cell ct k a b e) \<and>
   (voltage_in_bounds c2 \<longrightarrow> voltage_in_bounds (simulate_battery_operation c2 tt tp dr))"
  using simulate_cell_ui_voltage [of d c1] simulate_cells_ui_voltage [of draws cells]
    new_cell_in_bounds [of ct k a b e] simulate_battery_operation_in_bounds [of c2 tt tp dr]
  by blast

theorem voltage_range_after_tick_witness:
  "voltage_in_bounds (new_cell ''lfp'' 1 30 50 90) \<and>
   voltage_in_bounds
     (simulate_battery_operation (new_cell ''lfp'' 1 30 50 90) ''CC_CV''
        [(''current'', 1), (''cv_voltage'', 4), (''time_seconds'', 60)] (1 / 10)) \<and>
   voltage
     (simulate_battery_operation (new_cell ''lfp'' 1 30 50 90) ''CC_CV''
        [(''current'', 1), (''cv_voltage'', 4), (''time_seconds'', 60)] (1 / 10)) = 321 / 100"
proof -
  have start: "voltage_in_bounds (new_cell ''lfp'' 1 30 50 90)"
    by (simp add: voltage_in_bounds_def new_cell_def create_cell_data_def Let_def)
  have after: "voltage_in_bounds
     (simulate_battery_operation (new_cell ''lfp'' 1 30 50 90) ''CC_CV''
        [(''current'', 1), (''cv_voltage'', 4), (''time_seconds'', 60)] (1 / 10))"
    using start
      voltage_range_after_tick [of _ _ _ _ _ _ _ _ _ "new_cell ''lfp'' 1 30 50 90" "''CC_CV''"
        "[(''current'', 1), (''cv_voltage'', 4), (''time_seconds'', 60)]" "1 / 10"]
    by blast
  have "voltage
     (simulate_battery_operation (new_cell ''lfp'' 1 30 50 90) ''CC_CV''
        [(''current'', 1), (''cv_voltage'', 4), (''time_seconds'', 60)] (1 / 10)) = 321 / 100"
    by (simp add: simulate_battery_operation_voltage new_cell_def create_cell_data_def Let_def)
  with start after show ?thesis
    by blast
qed

text \<open>
  The range of the chemistry itself does not hold in variant 1: a new LFP cell that drew
  3.9 V, once the sidebar has written it back, is still at 3.9 V after a tick that draws
  no variation, above the 3.65 V of LFP.
\<close>

theorem ui_voltage_leaves_chemistry_range:
  "\<not> (fst (soc_range ''LFP'') \<le>
        ui_voltage (simulate_cell_ui
          \<lparr>temp_draw = 0, voltage_draw = 0, current_draw = 0, health_draw = 0\<rparr>
          (sidebar_update ''LFP'' (39 / 10) 0 25 0 (new_ui_cell ''LFP'' (39 / 10) 0 25 90))) \<and>
      ui_voltage (simulate_cell_ui
          \<lparr>temp_draw = 0, voltage_draw = 0, current_draw = 0, health_draw = 0\<rparr>
          (sidebar_update ''LFP'' (39 / 10) 0 25 0 (new_ui_cell ''LFP'' (39 / 10) 0 25 90))) \<le>
        snd (soc_range ''LFP''))"
  by (simp add: simulate_cell_ui_def recalculate_dependent_fields vary_current_voltage
      vary_voltage_def vary_temperature_def sidebar_update_def Let_def soc_range_cases
      lower_examples)

subsection \<open>The capacity\<close>



subsection \<open>What a tick of variant 2 leaves alone\<close>

text \<open>
  C10. \<open>simulate_battery_operation\<close> never changes the health of the cell, its
  \<open>min_voltage\<close>, its \<open>max_voltage\<close> or its type, for every task type, every
  parameters, every draw and every cell: putting back the current, the voltage, the soc,
  the status, the temperature and the capacity gives the cell it started from.
\<close>

theorem simulate_battery_operation_frame:
  "health (simulate_battery_operation c tt tp dr) = health c \<and>
   min_voltage (simulate_battery_operation c tt tp dr) = min_voltage c \<and>
   max_voltage (simulate_battery_operation c tt tp dr) = max_voltage c \<and>
   cell_type (simulate_battery_operation c tt tp dr) = cell_type c \<and>
   (simulate_battery_operation c tt tp dr)
     \<lparr>current := current c, voltage := voltage c, soc := soc c, status := status c,
      temp := temp c, capacity := capacity c\<rparr> = c"
  by (simp only: simulate_battery_operation_unchanged simulate_battery_operation_restore simp_thms)

section \<open>Properties of the history buffers\<close>

lemma keep_last_drop: "keep_last n xs = drop (length xs - n) xs"
  by (simp add: keep_last_def)

lemma keep_last_length: "length (keep_last n xs) \<le> n"
  by (simp add: keep_last_def)

lemma keep_last_append: "keep_last n (keep_last n xs @ ys) = keep_last n (xs @ ys)"
  by (cases "length xs \<le> n") (simp_all add: keep_last_drop ac_simps)

lemma record_history_ui_fields:
  "historical_data (record_history_ui t cells h) =
     keep_last 100 (historical_data h @ [system_averages t cells])"
  "data_points (record_history_ui t cells h) =
     keep_last 500 (data_points h @ map (cell_data_point t) cells)"
  by (simp_all add: record_history_ui_def Let_def)

lemma system_points_Cons:
  "system_points ((t, cells) # ticks) = system_averages t cells # system_points ticks"
  by (simp add: system_points_def)

lemma cell_points_Cons:
  "cell_points ((t, cells) # ticks) = map (cell_data_point t) cells @ cell_points ticks"
  by (simp add: cell_points_def)

lemma history_points_Cons:
  "history_points ((t, cells) # ticks) = map (cell_history_point t) cells @ history_points ticks"
  by (simp add: history_points_def)

lemma record_history_ui_run_historical_data:
  "historical_data (record_history_ui_run (tick # ticks) h) =
     keep_last 100 (historical_data h @ system_points (tick # ticks))"
proof (induction ticks arbitrary: tick h)
  case Nil
  show ?case
    by (cases tick) (simp add: record_history_ui_fields system_points_def)
next
  case (Cons tick' ticks)
  obtain t cells where tick: "tick = (t, cells)"
    by (cases tick)
  have "historical_data (record_history_ui_run (tick # tick' # ticks) h) =
      historical_data (record_history_ui_run (tick' # ticks) (record_history_ui t cells h))"
    by (simp only: tick record_history_ui_run.simps)
  also have "\<dots> = keep_last 100
      (keep_last 100 (historical_data h @ [system_averages t cells]) @
        system_points (tick' # ticks))"
    by (simp only: Cons.IH record_history_ui_fields)
  also have "\<dots> = keep_last 100 (historical_data h @ system_points (tick # tick' # ticks))"
    by (simp only: keep_last_append tick system_points_Cons [of t cells] append_assoc
        append_Cons append_Nil)
  finally show ?case .
qed

lemma record_history_ui_run_data_points:
  "data_points (record_history_ui_run (tick # ticks) h) =
     keep_last 500 (data_points h @ cell_points (tick # ticks))"
proof (induction ticks arbitrary: tick h)
  case Nil
  show ?case
    by (cases tick) (simp add: record_history_ui_fields cell_points_def)
next
  case (Cons tick' ticks)
  obtain t cells where tick: "tick = (t, cells)"
    by (cases tick)
  have "data_points (record_history_ui_run (tick # tick' # ticks) h) =
      data_points (record_history_ui_run (tick' # ticks) (record_history_ui t cells h))"
    by (simp only: tick record_history_ui_run.simps)
  also have "\<dots> = keep_last 500
      (keep_last 500 (data_points h @ map (cell_data_point t) cells) @
        cell_points (tick' # ticks))"
    by (simp only: Cons.IH record_history_ui_fields)
  also have "\<dots> = keep_last 500 (data_points h @ cell_points (tick # tick' # ticks))"
    by (simp only: keep_last_append tick cell_points_Cons [of t cells] append_assoc)
  finally show ?case .
qed

lemma store_history_bms_run_eq:
  "store_history_bms_run ticks history = history @ history_points ticks"
proof (induction ticks arbitrary: history)
  case Nil
  show ?case by (simp add: history_points_def)
next
  case (Cons tick ticks)
  obtain t cells where tick: "tick = (t, cells)"
    by (cases tick)
  show ?case
    by (simp add: tick Cons.IH store_history_bms_def history_points_Cons)
qed

lemma history_points_ticks_501: "length (history_points ticks_501) = 501"
proof -
  have "length (history_points (map (\<lambda>n. (real n, one_cell)) ns)) = length ns" for ns
    by (induction ns) (simp_all add: history_points_def one_cell_def)
  then show ?thesis
    by (simp add: ticks_501_def)
qed

text \<open>
  C8, as amended. In variant 1, after every tick the buffer of system averages holds the
  last 100 and the buffer of cell points the last 500, at most, of the points appended so
  far, in the order they were appended; from an empty store, 150 ticks leave the 100 most
  recent averages. In variant 2 the store is never trimmed: it holds every point ever
  appended, in order.
\<close>

theorem history_buffers:
  "historical_data (record_history_ui_run (tick # ticks) h) =
     drop (length (historical_data h @ system_points (tick # ticks)) - 100)
       (historical_data h @ system_points (tick # ticks)) \<and>
   length (historical_data (record_history_ui_run (tick # ticks) h)) \<le> 100 \<and>
   data_points (record_history_ui_run (tick # ticks) h) =
     drop (length (data_points h @ cell_points (tick # ticks)) - 500)
       (data_points h @ cell_points (tick # ticks)) \<and>
   length (data_points (record_history_ui_run (tick # ticks) h)) \<le> 500 \<and>
   historical_data (record_history_ui_run ticks empty_history) =
     drop (length ticks - 100) (system_points ticks) \<and>
   store_history_bms_run ticks2 history = history @ history_points ticks2"
proof -
  have "historical_data (record_history_ui_run ticks empty_history) =
     drop (length ticks - 100) (system_points ticks)"
  proof (cases ticks)
    case Nil
    then show ?thesis by (simp add: empty_history_def system_points_def)
  next
    case (Cons a list)
    have "length (system_points ticks) = length ticks"
      by (simp add: system_points_def)
    then show ?thesis
      unfolding Cons record_history_ui_run_historical_data keep_last_drop
      by (simp add: empty_history_def Cons)
  qed
  then show ?thesis
    by (simp only: record_history_ui_run_historical_data record_history_ui_run_data_points
        keep_last_length store_history_bms_run_eq keep_last_drop [symmetric] simp_thms)
qed

text \<open>
  The store of variant 2 is not bounded by 500: one cell and 501 ticks leave 501 points.
\<close>

theorem bms_history_unbounded:
  "\<not> length (store_history_bms_run ticks_501 []) \<le> 500"
  by (simp add: store_history_bms_run_eq history_points_ticks_501)

section \<open>Properties of the task sequence\<close>

subsection \<open>Adding a task\<close>

text \<open>
  The handler that adds a task has one outcome: it appends the task, so that the sequence
  grows by one, and it reports the addition. It checks nothing. The durations come from
  sliders that start at 10 (charge, discharge) and 5 (idle) seconds, so with the widgets
  in their ranges a new task lasts 5 seconds or more, and every task of the sequence has
  a positive duration.
\<close>

lemma positive_durations_append:
  "positive_durations (q @ [t]) \<longleftrightarrow>
     positive_durations q \<and> (case time_seconds t of None \<Rightarrow> False | Some d \<Rightarrow> 0 < d)"
  by (simp add: positive_durations_def)

lemma add_task_to_sequence_appends:
  "fst (add_task_to_sequence w q) =
     q @ [\<lparr>task_type = new_task w, params = new_task_params w, completed = False\<rparr>] \<and>
   length (fst (add_task_to_sequence w q)) = Suc (length q) \<and>
   snd (add_task_to_sequence w q) = ''Added '' @ new_task w @ '' to sequence!''"
  by (simp add: add_task_to_sequence_def Let_def)

lemma new_task_duration:
  "task_widgets_in_range w \<Longrightarrow>
   \<exists>d. time_seconds \<lparr>task_type = new_task w, params = new_task_params w,
          completed = False\<rparr> = Some d \<and> 5 \<le> d"
  by (auto simp add: task_widgets_in_range_def new_task_params_def time_seconds_def)

lemma add_task_to_sequence_positive:
  assumes "task_widgets_in_range w" and "positive_durations q"
  shows "positive_durations (fst (add_task_to_sequence w q))"
proof -
  from new_task_duration [OF assms(1)] obtain d
    where "time_seconds \<lparr>task_type = new_task w, params = new_task_params w,
          completed = False\<rparr> = Some d" and "5 \<le> d"
    by blast
  with assms(2) show ?thesis
    by (simp add: add_task_to_sequence_appends positive_durations_append)
qed

subsection \<open>Running the sequence\<close>

lemma progressed_length: "length (progressed q k) = length q"
  by (induction q k rule: progressed.induct) simp_all

lemma progressed_0: "progressed q 0 = q"
  by (cases q) simp_all

lemma progressed_nth: "k < length q \<Longrightarrow> progressed q k ! k = q ! k"
  by (induction q k rule: progressed.induct) simp_all

lemma progressed_update:
  "k < length q \<Longrightarrow>
   (progressed q k)[k := (q ! k)\<lparr>completed := True\<rparr>] = progressed q (Suc k)"
proof (induction q k rule: progressed.induct)
  case (1 k)
  then show ?case by simp
next
  case (2 t q)
  then show ?case by (cases q) simp_all
next
  case (3 t q k)
  then show ?case by simp
qed

lemma progressed_all:
  "length q \<le> k \<Longrightarrow> progressed q k = map (\<lambda>t. t\<lparr>completed := True\<rparr>) q"
  by (induction q k rule: progressed.induct) simp_all

lemma sequencer_step_stopped:
  "\<not> simulation_running s \<Longrightarrow> sequencer_step clock s = Inr s"
  by (cases clock) (simp add: sequencer_step_def)

lemma sequencer_step_running:
  assumes "simulation_running s"
    and "current_task_step s < length (task_sequence s)"
    and "time_seconds (task_sequence s ! current_task_step s) = Some d"
  shows "sequencer_step (now1, now2, now3) s =
     Inr (let st = (case task_start_time s of None \<Rightarrow> now1 | Some st \<Rightarrow> st);
              k = current_task_step s
          in if d \<le> now2 - st then
               if length (task_sequence s) \<le> Suc k then
                 s\<lparr>simulation_running := False,
                   task_sequence :=
                     (task_sequence s)[k := (task_sequence s ! k)\<lparr>completed := True\<rparr>],
                   current_task_step := 0,
                   task_start_time := None\<rparr>
               else
                 s\<lparr>task_sequence :=
                     (task_sequence s)[k := (task_sequence s ! k)\<lparr>completed := True\<rparr>],
                   current_task_step := Suc k,
                   task_start_time := Some now3\<rparr>
             else s\<lparr>task_start_time := Some st\<rparr>)"
proof -
  from assms(2) have "task_sequence s \<noteq> []"
    by auto
  with assms show ?thesis
    by (cases "task_start_time s") (simp_all add: sequencer_step_def Let_def)
qed

lemma time_seconds_completed: "time_seconds (t\<lparr>completed := True\<rparr>) = time_seconds t"
  by (simp add: time_seconds_def)

lemma seq_inv_started: "q \<noteq> [] \<Longrightarrow> seq_inv q ds t0 hi (started q)"
  by (simp add: seq_inv_def started_def progressed_0)

lemma seq_inv_step:
  assumes inv: "seq_inv q ds t0 hi s"
    and durs: "map time_seconds q = map Some ds"
    and order: "t0 \<le> hi" "hi \<le> now1" "now1 \<le> now2" "now2 \<le> now3"
  shows "\<exists>s'. sequencer_step (now1, now2, now3) s = Inr s' \<and> seq_inv q ds t0 now3 s'"
proof (cases "simulation_running s")
  case False
  with inv order show ?thesis
    by (simp add: sequencer_step_stopped seq_inv_def)
next
  case True
  define k where "k = current_task_step s"
  define st where "st = (case task_start_time s of None \<Rightarrow> now1 | Some st \<Rightarrow> st)"
  from inv True have k: "k < length q" and seq: "task_sequence s = progressed q k"
    by (simp_all add: seq_inv_def k_def)
  from durs have len: "length ds = length q"
    by (metis length_map)
  from durs k have dur: "time_seconds (q ! k) = Some (ds ! k)"
    by (metis len nth_map)
  from inv True order have st: "t0 + sum_list (take k ds) \<le> st" "st \<le> now3"
    by (auto simp add: seq_inv_def k_def st_def split: option.splits)
  have sum: "sum_list (take (Suc k) ds) = sum_list (take k ds) + ds ! k"
    using k len by (simp add: take_Suc_conv_app_nth)
  have step: "sequencer_step (now1, now2, now3) s =
     Inr (if ds ! k \<le> now2 - st then
               if length q \<le> Suc k then
                 s\<lparr>simulation_running := False,
                   task_sequence := progressed q (Suc k),
                   current_task_step := 0,
                   task_start_time := None\<rparr>
               else
                 s\<lparr>task_sequence := progressed q (Suc k),
                   current_task_step := Suc k,
                   task_start_time := Some now3\<rparr>
             else s\<lparr>task_start_time := Some st\<rparr>)"
    using sequencer_step_running [of s "ds ! k" now1 now2 now3] True k dur
    by (simp add: seq progressed_length progressed_nth progressed_update Let_def
        k_def [symmetric] st_def [symmetric])
  show ?thesis
  proof (cases "ds ! k \<le> now2 - st")
    case wait: False
    with step True k seq st show ?thesis
      by (simp add: seq_inv_def k_def)
  next
    case due: True
    show ?thesis
    proof (cases "length q \<le> Suc k")
      case last: True
      then have "sum_list ds = sum_list (take (Suc k) ds)"
        using len by simp
      with sum st due order have "t0 + sum_list ds \<le> now3"
        by linarith
      moreover have "s\<lparr>simulation_running := False, task_sequence := progressed q (Suc k),
          current_task_step := 0, task_start_time := None\<rparr> = finished q"
        by (simp add: finished_def progressed_all last)
      ultimately show ?thesis
        using step due last by (simp add: seq_inv_def finished_def)
    next
      case more: False
      from sum st due order have "t0 + sum_list (take (Suc k) ds) \<le> now3"
        by linarith
      with step due more True show ?thesis
        by (simp add: seq_inv_def)
    qed
  qed
qed

lemma readings_Cons:
  "readings ((now1, now2, now3) # clocks) = now1 # now2 # now3 # readings clocks"
  by (simp add: readings_def)

lemma seq_inv_run:
  assumes durs: "map time_seconds q = map Some ds"
  shows "seq_inv q ds t0 hi s \<Longrightarrow> t0 \<le> hi \<Longrightarrow> sorted (hi # readings clocks) \<Longrightarrow>
     \<exists>s'. sequencer_run clocks s = Inr s' \<and> seq_inv q ds t0 (last (hi # readings clocks)) s'"
proof (induction clocks arbitrary: hi s)
  case Nil
  then show ?case
    by (simp add: readings_def)
next
  case (Cons clock clocks)
  obtain now1 now2 now3 where clock: "clock = (now1, now2, now3)"
    by (cases clock)
  from Cons.prems(3) have order: "hi \<le> now1" "now1 \<le> now2" "now2 \<le> now3"
    and rest: "sorted (now3 # readings clocks)"
    by (simp_all add: clock readings_Cons)
  from seq_inv_step [OF Cons.prems(1) durs Cons.prems(2) order]
  obtain s1 where s1: "sequencer_step (now1, now2, now3) s = Inr s1"
    and inv1: "seq_inv q ds t0 now3 s1"
    by blast
  from Cons.prems(2) order have "t0 \<le> now3"
    by linarith
  from Cons.IH [OF inv1 this rest]
  obtain s' where "sequencer_run clocks s1 = Inr s'"
    and "seq_inv q ds t0 (last (now3 # readings clocks)) s'"
    by blast
  then show ?case
    by (simp add: clock s1 readings_Cons)
qed

lemma sequencer_run_stopped:
  "\<not> simulation_running s \<Longrightarrow> sequencer_run clocks s = Inr s"
  by (induction clocks) (simp_all add: sequencer_step_stopped)

lemma finished_stopped: "\<not> simulation_running (finished q)"
  by (simp add: finished_def)

lemma sequencer_step_running_task:
  assumes durs: "map time_seconds q = map Some ds"
    and k: "k < length q"
  shows "sequencer_step clock (running_task q k start) =
     Inr (if due (ds ! k) start clock then
            if length q \<le> Suc k then finished q else running_task q (Suc k) (restart clock)
          else running_task q k start)"
proof -
  obtain now1 now2 now3 where clock: "clock = (now1, now2, now3)"
    by (cases clock)
  from durs have len: "length ds = length q"
    by (metis length_map)
  from durs k have dur: "time_seconds (q ! k) = Some (ds ! k)"
    by (metis len nth_map)
  have "sequencer_step (now1, now2, now3) (running_task q k start) =
     Inr (if ds ! k \<le> now2 - start then
            if length q \<le> Suc k then finished q else running_task q (Suc k) now3
          else running_task q k start)"
    using sequencer_step_running [of "running_task q k start" "ds ! k" now1 now2 now3] k dur
    by (simp add: running_task_def progressed_length progressed_nth progressed_update
        progressed_all finished_def Let_def)
  then show ?thesis
    by (simp add: clock due_def restart_def)
qed

lemma sequencer_step_started:
  assumes durs: "map time_seconds q = map Some ds"
    and q: "q \<noteq> []"
  shows "sequencer_step (now1, now2, now3) (started q) =
     sequencer_step (now1, now2, now3) (running_task q 0 now1)"
proof -
  from durs have len: "length ds = length q"
    by (metis length_map)
  from q have k: "0 < length q"
    by simp
  with durs have dur: "time_seconds (q ! 0) = Some (ds ! 0)"
    by (metis len nth_map)
  show ?thesis
    using sequencer_step_running [of "started q" "ds ! 0" now1 now2 now3]
      sequencer_step_running [of "running_task q 0 now1" "ds ! 0" now1 now2 now3] k dur
    by (simp add: started_def running_task_def progressed_0 Let_def)
qed

lemma sequencer_run_served:
  assumes durs: "map time_seconds q = map Some ds"
  shows "k < length q \<Longrightarrow>
     \<exists>s. sequencer_run clocks (running_task q k start) = Inr s \<and>
       (if served (drop k ds) start clocks then s = finished q else simulation_running s)"
proof (induction clocks arbitrary: k start)
  case Nil
  from durs have len: "length ds = length q"
    by (metis length_map)
  with Nil have "drop k ds \<noteq> []"
    by simp
  then obtain d rest where "drop k ds = d # rest"
    by (cases "drop k ds") simp_all
  then show ?case
    by (simp add: running_task_def)
next
  case (Cons clock clocks)
  from durs have len: "length ds = length q"
    by (metis length_map)
  with Cons.prems have drop: "drop k ds = ds ! k # drop (Suc k) ds"
    by (simp add: Cons_nth_drop_Suc)
  note step = sequencer_step_running_task [OF durs Cons.prems, of clock start]
  show ?case
  proof (cases "due (ds ! k) start clock")
    case False
    with Cons.IH [OF Cons.prems, of start] step show ?thesis
      by (simp add: drop)
  next
    case True
    show ?thesis
    proof (cases "length q \<le> Suc k")
      case last: True
      with len have "drop (Suc k) ds = []"
        by simp
      with True last step show ?thesis
        by (simp add: drop sequencer_run_stopped finished_stopped)
    next
      case False
      then have "Suc k < length q"
        by simp
      from Cons.IH [OF this, of "restart clock"] True False step show ?thesis
        by (simp add: drop)
    qed
  qed
qed

lemma served_decomposition:
  "served (d # ds) start clocks \<longleftrightarrow>
     (\<exists>p c r. clocks = p @ c # r \<and> waiting d start p \<and> due d start c \<and>
        served ds (restart c) r)"
proof (induction clocks)
  case Nil
  then show ?case by simp
next
  case (Cons clock clocks)
  show ?case
  proof (cases "due d start clock")
    case True
    show ?thesis
    proof
      assume "served (d # ds) start (clock # clocks)"
      with True have "served ds (restart clock) clocks"
        by simp
      with True have "clock # clocks = [] @ clock # clocks \<and> waiting d start [] \<and>
          due d start clock \<and> served ds (restart clock) clocks"
        by (simp add: waiting_def)
      then show "\<exists>p c r. clock # clocks = p @ c # r \<and> waiting d start p \<and> due d start c \<and>
          served ds (restart c) r"
        by blast
    next
      assume "\<exists>p c r. clock # clocks = p @ c # r \<and> waiting d start p \<and> due d start c \<and>
          served ds (restart c) r"
      then obtain p c r where eq: "clock # clocks = p @ c # r" and w: "waiting d start p"
        and rest: "due d start c" "served ds (restart c) r"
        by blast
      from eq w True have "p = []"
        by (cases p) (auto simp add: waiting_def)
      with eq rest True show "served (d # ds) start (clock # clocks)"
        by simp
    qed
  next
    case False
    show ?thesis
    proof
      assume "served (d # ds) start (clock # clocks)"
      with False have "served (d # ds) start clocks"
        by simp
      with Cons.IH obtain p c r where "clocks = p @ c # r" "waiting d start p"
        "due d start c" "served ds (restart c) r"
        by blast
      with False have "clock # clocks = (clock # p) @ c # r \<and> waiting d start (clock # p) \<and>
          due d start c \<and> served ds (restart c) r"
        by (simp add: waiting_def)
      then show "\<exists>p c r. clock # clocks = p @ c # r \<and> waiting d start p \<and> due d start c \<and>
          served ds (restart c) r"
        by blast
    next
      assume "\<exists>p c r. clock # clocks = p @ c # r \<and> waiting d start p \<and> due d start c \<and>
          served ds (restart c) r"
      then obtain p c r where eq: "clock # clocks = p @ c # r" and w: "waiting d start p"
        and rest: "due d start c" "served ds (restart c) r"
        by blast
      from eq rest(1) False obtain p' where p: "p = clock # p'"
        by (cases p) auto
      with eq w have "clocks = p' @ c # r" "waiting d start p'"
        by (simp_all add: waiting_def)
      with rest Cons.IH have "served (d # ds) start clocks"
        by blast
      with False show "served (d # ds) start (clock # clocks)"
        by simp
    qed
  qed
qed

lemma served_three:
  "served [d1, d2, d3] start clocks \<longleftrightarrow>
     (\<exists>p0 c1 p1 c2 p2 c3 r. clocks = p0 @ c1 # p1 @ c2 # p2 @ c3 # r \<and>
        waiting d1 start p0 \<and> due d1 start c1 \<and>
        waiting d2 (restart c1) p1 \<and> due d2 (restart c1) c2 \<and>
        waiting d3 (restart c2) p2 \<and> due d3 (restart c2) c3)"
proof
  assume "served [d1, d2, d3] start clocks"
  then obtain p0 c1 r0 where 0: "clocks = p0 @ c1 # r0" "waiting d1 start p0" "due d1 start c1"
    and "served [d2, d3] (restart c1) r0"
    by (auto simp add: served_decomposition [of d1])
  then obtain p1 c2 r1 where 1: "r0 = p1 @ c2 # r1" "waiting d2 (restart c1) p1"
    "due d2 (restart c1) c2" and "served [d3] (restart c2) r1"
    by (auto simp add: served_decomposition [of d2])
  then obtain p2 c3 r where 2: "r1 = p2 @ c3 # r" "waiting d3 (restart c2) p2"
    "due d3 (restart c2) c3"
    by (auto simp add: served_decomposition [of d3])
  from 0 1 2 show "\<exists>p0 c1 p1 c2 p2 c3 r. clocks = p0 @ c1 # p1 @ c2 # p2 @ c3 # r \<and>
        waiting d1 start p0 \<and> due d1 start c1 \<and>
        waiting d2 (restart c1) p1 \<and> due d2 (restart c1) c2 \<and>
        waiting d3 (restart c2) p2 \<and> due d3 (restart c2) c3"
    by blast
next
  assume "\<exists>p0 c1 p1 c2 p2 c3 r. clocks = p0 @ c1 # p1 @ c2 # p2 @ c3 # r \<and>
        waiting d1 start p0 \<and> due d1 start c1 \<and>
        waiting d2 (restart c1) p1 \<and> due d2 (restart c1) c2 \<and>
        waiting d3 (restart c2) p2 \<and> due d3 (restart c2) c3"
  then obtain p0 c1 p1 c2 p2 c3 r where eq: "clocks = p0 @ c1 # p1 @ c2 # p2 @ c3 # r"
    and 0: "waiting d1 start p0" "due d1 start c1"
    and 1: "waiting d2 (restart c1) p1" "due d2 (restart c1) c2"
    and 2: "waiting d3 (restart c2) p2" "due d3 (restart c2) c3"
    by blast
  have "served [] (restart c3) r"
    by simp
  with 2 have "served [d3] (restart c2) (p2 @ c3 # r)"
    by (subst served_decomposition) blast
  with 1 have "served [d2, d3] (restart c1) (p1 @ c2 # p2 @ c3 # r)"
    by (subst served_decomposition) blast
  with 0 have "served [d1, d2, d3] start (p0 @ c1 # p1 @ c2 # p2 @ c3 # r)"
    by (subst served_decomposition) blast
  then show "served [d1, d2, d3] start clocks"
    by (simp only: eq)
qed

lemma sequencer_run_started:
  assumes durs: "map time_seconds q = map Some ds"
    and q: "q \<noteq> []"
  shows "\<exists>s. sequencer_run clocks (started q) = Inr s \<and>
     (if clocks \<noteq> [] \<and> served ds (first_reading clocks) clocks then s = finished q
      else simulation_running s)"
proof (cases clocks)
  case Nil
  then show ?thesis
    by (simp add: started_def)
next
  case (Cons clock rest)
  obtain now1 now2 now3 where clock: "clock = (now1, now2, now3)"
    by (cases clock)
  have "sequencer_run clocks (started q) = sequencer_run clocks (running_task q 0 now1)"
    by (simp add: Cons clock sequencer_step_started [OF durs q])
  moreover have "first_reading clocks = now1"
    by (simp add: Cons clock first_reading_def)
  moreover from q have "0 < length q"
    by simp
  from sequencer_run_served [OF durs this, of clocks now1]
  have "\<exists>s. sequencer_run clocks (running_task q 0 now1) = Inr s \<and>
     (if served ds now1 clocks then s = finished q else simulation_running s)"
    by simp
  ultimately show ?thesis
    by (simp add: Cons)
qed

text \<open>
  C7, as amended. Take a sequence of exactly three tasks of 10, 20 and 5 seconds, and
  start the simulation on it. No run of the script raises, and after any runs the
  sequencer is either still running or in the Completed state: the simulation has
  stopped, the three tasks are completed, the step is 0 and no start time is left. It is
  in the Completed state exactly when three of the runs, in this order, found their task
  due: the first run to read the clock 10 seconds or more after the first clock reading,
  then the first later run to read it 20 seconds or more after the reading with which
  that run restarted the timer, then the first later run to read it 5 seconds or more
  after the restart of the second. So each task is timed from the run that completed the
  one before it, and a run completes one task at most. When the clock does not go back,
  at least 35 seconds lie between the first and the last reading of a completed
  sequence, and with one run every whole second the sequence is completed in the run at
  35 seconds.
\<close>

theorem sequencer_three_tasks:
  assumes "map time_seconds q = [Some 10, Some 20, Some 5]"
  shows "(\<exists>s. sequencer_run clocks (started q) = Inr s \<and>
            (s = finished q \<or> simulation_running s)) \<and>
     (sequencer_run clocks (started q) = Inr (finished q) \<longleftrightarrow>
        (\<exists>p0 c1 p1 c2 p2 c3 r. clocks = p0 @ c1 # p1 @ c2 # p2 @ c3 # r \<and>
           waiting 10 (first_reading clocks) p0 \<and> due 10 (first_reading clocks) c1 \<and>
           waiting 20 (restart c1) p1 \<and> due 20 (restart c1) c2 \<and>
           waiting 5 (restart c2) p2 \<and> due 5 (restart c2) c3)) \<and>
     (sorted (readings clocks) \<and> sequencer_run clocks (started q) = Inr (finished q) \<longrightarrow>
        hd (readings clocks) + 35 \<le> last (readings clocks)) \<and>
     sequencer_run (at_instants (map real [0..<36])) (started q) = Inr (finished q)"
proof -
  from assms have durs: "map time_seconds q = map Some [10, 20, 5]"
    by simp
  from assms have nonempty: "q \<noteq> []"
    by auto
  from sequencer_run_started [OF durs nonempty, of clocks]
  obtain s where run: "sequencer_run clocks (started q) = Inr s"
    and s: "if clocks \<noteq> [] \<and> served [10, 20, 5] (first_reading clocks) clocks
            then s = finished q else simulation_running s"
    by blast
  have total: "\<exists>s. sequencer_run clocks (started q) = Inr s \<and>
            (s = finished q \<or> simulation_running s)"
    using run s by (auto split: if_splits)
  have "sequencer_run clocks (started q) = Inr (finished q) \<longleftrightarrow>
      clocks \<noteq> [] \<and> served [10, 20, 5] (first_reading clocks) clocks"
    using run s finished_stopped [of q] by (auto split: if_splits)
  also have "\<dots> \<longleftrightarrow> served [10, 20, 5] (first_reading clocks) clocks"
    by (cases clocks) simp_all
  finally have exact: "sequencer_run clocks (started q) = Inr (finished q) \<longleftrightarrow>
        (\<exists>p0 c1 p1 c2 p2 c3 r. clocks = p0 @ c1 # p1 @ c2 # p2 @ c3 # r \<and>
           waiting 10 (first_reading clocks) p0 \<and> due 10 (first_reading clocks) c1 \<and>
           waiting 20 (restart c1) p1 \<and> due 20 (restart c1) c2 \<and>
           waiting 5 (restart c2) p2 \<and> due 5 (restart c2) c3)"
    by (simp only: served_three)
  have safe: "hd (readings clocks) + 35 \<le> last (readings clocks)"
    if sorted: "sorted (readings clocks)"
      and fin: "sequencer_run clocks (started q) = Inr (finished q)"
  proof (cases clocks)
    case Nil
    with fin show ?thesis
      by (simp add: started_def finished_def)
  next
    case (Cons clock rest)
    obtain now1 now2 now3 where clock: "clock = (now1, now2, now3)"
      by (cases clock)
    have first: "hd (readings clocks) = now1"
      by (simp add: Cons clock readings_Cons)
    from sorted have "sorted (now1 # readings clocks)"
      by (simp add: Cons clock readings_Cons)
    from seq_inv_run [OF durs seq_inv_started [OF nonempty] order_refl this]
    obtain s' where run': "sequencer_run clocks (started q) = Inr s'"
      and inv: "seq_inv q [10, 20, 5] now1 (last (now1 # readings clocks)) s'"
      by blast
    have "last (now1 # readings clocks) = last (readings clocks)"
      by (simp add: Cons clock readings_Cons)
    with inv have "seq_inv q [10, 20, 5] now1 (last (readings clocks)) s'"
      by (simp only:)
    moreover from run' fin have "s' = finished q"
      by simp
    ultimately have "now1 + 35 \<le> last (readings clocks)"
      using finished_stopped [of q] by (auto simp add: seq_inv_def split: if_splits)
    with first show ?thesis
      by simp
  qed
  from assms obtain t1 t2 t3 where q: "q = [t1, t2, t3]"
    and t: "time_seconds t1 = Some 10" "time_seconds t2 = Some 20" "time_seconds t3 = Some 5"
    by (auto simp add: map_eq_Cons_conv)
  have seconds: "sequencer_run (at_instants (map real [0..<36])) (started q) =
      Inr (finished q)"
    by (simp add: upt_rec at_instants_def started_def finished_def sequencer_step_def Let_def
        q t time_seconds_completed)
  from total exact safe seconds show ?thesis
    by blast
qed

text \<open>
  With a run every 7 seconds the runs at 14, 35 and 42 seconds complete the three tasks.
\<close>

theorem sequencer_three_tasks_witness:
  "map time_seconds example_queue = [Some 10, Some 20, Some 5] \<and>
   at_instants (map (\<lambda>k. 7 * real k) [0..<7]) =
     at_instants [0, 7] @ (14, 14, 14) # at_instants [21, 28] @ (35, 35, 35) # [] @
       (42, 42, 42) # [] \<and>
   first_reading (at_instants (map (\<lambda>k. 7 * real k) [0..<7])) = 0 \<and>
   waiting 10 0 (at_instants [0, 7]) \<and> due 10 0 (14, 14, 14) \<and>
   waiting 20 14 (at_instants [21, 28]) \<and> due 20 14 (35, 35, 35) \<and>
   waiting 5 35 [] \<and> due 5 35 (42, 42, 42) \<and>
   sequencer_run (at_instants (map (\<lambda>k. 7 * real k) [0..<7])) (started example_queue) =
     Inr (finished example_queue) \<and>
   sorted (readings (at_instants (map (\<lambda>k. 7 * real k) [0..<7]))) \<and>
   last (readings (at_instants (map (\<lambda>k. 7 * real k) [0..<7]))) = 42 \<and>
   hd (readings (at_instants (map (\<lambda>k. 7 * real k) [0..<7]))) + 35 \<le>
     last (readings (at_instants (map (\<lambda>k. 7 * real k) [0..<7])))"
proof -
  let ?clocks = "at_instants (map (\<lambda>k. 7 * real k) [0..<7])"
  have durations: "map time_seconds example_queue = [Some 10, Some 20, Some 5]"
    by (simp add: example_queue_def time_seconds_def)
  note inst = sequencer_three_tasks [OF durations, of ?clocks]
  have split: "?clocks =
     at_instants [0, 7] @ (14, 14, 14) # at_instants [21, 28] @ (35, 35, 35) # [] @
       (42, 42, 42) # []"
    by (simp add: upt_rec at_instants_def)
  have first: "first_reading ?clocks = 0"
    by (simp add: upt_rec at_instants_def first_reading_def)
  have dues: "waiting 10 0 (at_instants [0, 7])" "due 10 0 (14, 14, 14)"
    "waiting 20 14 (at_instants [21, 28])" "due 20 14 (35, 35, 35)"
    "waiting 5 35 []" "due 5 35 (42, 42, 42)"
    by (simp_all add: waiting_def due_def at_instants_def)
  have restarts: "restart (14, 14, 14) = 14" "restart (35, 35, 35) = 35"
    by (simp_all add: restart_def)
  have "?clocks = at_instants [0, 7] @ (14, 14, 14) # at_instants [21, 28] @
          (35, 35, 35) # [] @ (42, 42, 42) # [] \<and>
        waiting 10 (first_reading ?clocks) (at_instants [0, 7]) \<and>
        due 10 (first_reading ?clocks) (14, 14, 14) \<and>
        waiting 20 (restart (14, 14, 14)) (at_instants [21, 28]) \<and>
        due 20 (restart (14, 14, 14)) (35, 35, 35) \<and>
        waiting 5 (restart (35, 35, 35)) [] \<and> due 5 (restart (35, 35, 35)) (42, 42, 42)"
    unfolding first restarts using split dues by blast
  then have "\<exists>p0 c1 p1 c2 p2 c3 r. ?clocks = p0 @ c1 # p1 @ c2 # p2 @ c3 # r \<and>
           waiting 10 (first_reading ?clocks) p0 \<and> due 10 (first_reading ?clocks) c1 \<and>
           waiting 20 (restart c1) p1 \<and> due 20 (restart c1) c2 \<and>
           waiting 5 (restart c2) p2 \<and> due 5 (restart c2) c3"
    by (intro exI)
  with inst have run: "sequencer_run ?clocks (started example_queue) =
      Inr (finished example_queue)"
    by blast
  have sorted: "sorted (readings ?clocks)"
    by (simp add: upt_rec at_instants_def readings_def)
  have last: "last (readings ?clocks) = 42"
    by (simp add: upt_rec at_instants_def readings_def)
  from inst sorted run
  have "hd (readings ?clocks) + 35 \<le> last (readings ?clocks)"
    by blast
  with durations split first dues run sorted last show ?thesis
    by blast
qed

text \<open>
  Elapsed time alone does not complete the sequence: with a run every 1.5 seconds the
  first task completes at 10.5 and the second at 31.5 seconds, and at 36 seconds the
  third has run for 4.5 seconds only, so the simulation is still running at step 2.
\<close>

theorem sequencer_still_running_after_35_seconds:
  "hd (readings (at_instants (map (\<lambda>k. 3 / 2 * real k) [0..<25]))) = 0 \<and>
   last (readings (at_instants (map (\<lambda>k. 3 / 2 * real k) [0..<25]))) = 36 \<and>
   sequencer_run (at_instants (map (\<lambda>k. 3 / 2 * real k) [0..<25])) (started example_queue) =
     Inr \<lparr>simulation_running = True,
          task_sequence =
            [\<lparr>task_type = ''CC_CV'',
              params = [(''current'', 1), (''cv_voltage'', 4), (''time_seconds'', 10)],
              completed = True\<rparr>,
             \<lparr>task_type = ''CC_CD'',
              params = [(''current'', 1), (''voltage'', 3), (''time_seconds'', 20)],
              completed = True\<rparr>,
             \<lparr>task_type = ''IDLE'', params = [(''time_seconds'', 5)], completed = False\<rparr>],
          current_task_step = 2,
          task_start_time = Some (63 / 2)\<rparr>"
  by (simp add: upt_rec at_instants_def readings_def started_def sequencer_step_def Let_def
      example_queue_def time_seconds_def)

end
